theory Spec2Isabelle
  imports Main "HOL-Library.Word"
begin

section \<open>Go runtime and standard library, as far as the package uses them\<close>

text \<open>
  A Go \<^verbatim>\<open>panic(v)\<close> aborts the call; the model returns it as the left summand
  of a sum type, carrying the message. Strings are byte lists.
\<close>

datatype error = Panic string

definition bindE :: "error + 'a \<Rightarrow> ('a \<Rightarrow> error + 'b) \<Rightarrow> error + 'b" where
  "bindE m f = (case m of Inl e \<Rightarrow> Inl e | Inr v \<Rightarrow> f v)"

text \<open>\<^verbatim>\<open>strings.IndexByte(s, c)\<close>: the index of the first \<open>c\<close> in \<open>s\<close>, or -1.\<close>

fun IndexByte :: "string \<Rightarrow> char \<Rightarrow> int" where
  "IndexByte [] c = -1"
| "IndexByte (x # xs) c =
     (if x = c then 0 else (let i = IndexByte xs c in if i < 0 then -1 else i + 1))"

text \<open>
  \<^verbatim>\<open>strings.Split(s, sep)\<close> for a separator of one byte, the only use the package
  makes of it: the pieces of \<open>s\<close> between the separators; a string without the
  separator (the empty string too) is its own single piece.
\<close>

fun Split :: "string \<Rightarrow> char \<Rightarrow> string list" where
  "Split [] c = [[]]"
| "Split (x # xs) c =
     (if x = c then [] # Split xs c
      else (case Split xs c of [] \<Rightarrow> [[x]] | w # ws \<Rightarrow> (x # w) # ws))"

text \<open>\<^verbatim>\<open>strings.Join(elems, sep)\<close>.\<close>

fun Join :: "string list \<Rightarrow> string \<Rightarrow> string" where
  "Join [] sep = []"
| "Join [x] sep = x"
| "Join (x # y # ys) sep = x @ sep @ Join (y # ys) sep"

text \<open>The verb \<^verbatim>\<open>%d\<close> of \<^verbatim>\<open>fmt.Sprintf\<close>: a signed decimal numeral.\<close>

fun digits :: "nat \<Rightarrow> string" where
  "digits n =
     (if n < 10 then [''0123456789'' ! n]
      else digits (n div 10) @ [''0123456789'' ! (n mod 10)])"

declare digits.simps [simp del]

definition fmt_d :: "int \<Rightarrow> string" where
  "fmt_d i = (if i < 0 then ''-'' @ digits (nat (- i)) else digits (nat i))"

text \<open>Go slicing \<^verbatim>\<open>s[i:]\<close> and \<^verbatim>\<open>s[:i]\<close> at an index known to be in range.\<close>

definition slice_from :: "string \<Rightarrow> int \<Rightarrow> string" where
  "slice_from s i = drop (nat i) s"

definition slice_to :: "string \<Rightarrow> int \<Rightarrow> string" where
  "slice_to s i = take (nat i) s"

section \<open>Dialects\<close>

text \<open>
  The interface \<^verbatim>\<open>Dialect\<close>: a name and three methods. A method of an
  implementation may panic (the built-in ones do, on a negative limit and on an
  unknown name), so each returns a sum.
\<close>

type_synonym int64 = "64 word"

record Dialect =
  Name :: string
  Placeholder :: "int \<Rightarrow> error + string"
  Quote :: "string \<Rightarrow> error + string"
  LimitOffset :: "int64 \<Rightarrow> int64 \<Rightarrow> error + string"

definition pqDialect :: string where "pqDialect = ''postgres''"
definition mysqlDialect :: string where "mysqlDialect = ''mysql''"
definition sqlite3Dialect :: string where "sqlite3Dialect = ''sqlite3''"

text \<open>The struct \<^verbatim>\<open>dialect\<close> with its one field, and its methods.\<close>

datatype dialect = dialect (name: string)

definition unknown_dialect :: "dialect \<Rightarrow> error" where
  "unknown_dialect d = Panic (''unknown sql dialect '' @ [CHR 0x27] @ name d @ [CHR 0x27])"

definition dialect_Name :: "dialect \<Rightarrow> string" where
  "dialect_Name d = name d"

definition dialect_Placeholder :: "dialect \<Rightarrow> int \<Rightarrow> error + string" where
  "dialect_Placeholder d i =
     (if name d = pqDialect then Inr (''$'' @ fmt_d i)
      else if name d = mysqlDialect \<or> name d = sqlite3Dialect then Inr ''?''
      else Inl (unknown_dialect d))"

definition dialect_isQuoted :: "dialect \<Rightarrow> string \<Rightarrow> error + bool" where
  "dialect_isQuoted d s =
     (if name d = pqDialect \<or> name d = sqlite3Dialect then Inr (IndexByte s (CHR 0x22) \<ge> 0)
      else if name d = mysqlDialect then Inr (IndexByte s (CHR 0x60) \<ge> 0)
      else Inl (unknown_dialect d))"

definition dialect__quote :: "dialect \<Rightarrow> string \<Rightarrow> error + string" where
  "dialect__quote d s =
     (if name d = pqDialect \<or> name d = sqlite3Dialect then Inr ([CHR 0x22] @ s @ [CHR 0x22])
      else if name d = mysqlDialect then Inr ([CHR 0x60] @ s @ [CHR 0x60])
      else Inl (unknown_dialect d))"

text \<open>
  \<^verbatim>\<open>quote\<close>: the disjunction \<^verbatim>\<open>s == "*" || d.isQuoted(s)\<close> is evaluated left to
  right, so \<^verbatim>\<open>isQuoted\<close> is not called on \<^verbatim>\<open>"*"\<close>.
\<close>

definition dialect_quote :: "dialect \<Rightarrow> string \<Rightarrow> error + string" where
  "dialect_quote d s =
     bindE (if s = ''*'' then Inr True else dialect_isQuoted d s) (\<lambda>asis.
       if asis then Inr s
       else
         let i = IndexByte s (CHR ''('') in
         if i > -1 then
           let s' = slice_from s (i + 1) in
           if IndexByte s' (CHR ''('') > -1 then Inr s
           else
             let i2 = IndexByte s' (CHR '')'') in
             if i2 < 0 then Inr s
             else bindE (dialect__quote d (slice_to s' i2)) (\<lambda>q.
                    Inr (slice_to s i @ ''('' @ q @ '')'' @ slice_from s' (i2 + 1)))
         else dialect__quote d s)"

text \<open>The loop of \<^verbatim>\<open>Quote\<close> over the pieces: each is replaced by its quotation, in order.\<close>

fun quote_each :: "dialect \<Rightarrow> string list \<Rightarrow> error + string list" where
  "quote_each d [] = Inr []"
| "quote_each d (v # vs) =
     bindE (dialect_quote d v) (\<lambda>q. bindE (quote_each d vs) (\<lambda>qs. Inr (q # qs)))"

definition dialect_Quote :: "dialect \<Rightarrow> string \<Rightarrow> error + string" where
  "dialect_Quote d s =
     (if IndexByte s (CHR '' '') \<ge> 0 then Inr s
      else if IndexByte s (CHR ''.'') < 0 then dialect_quote d s
      else bindE (quote_each d (Split s (CHR ''.''))) (\<lambda>vs. Inr (Join vs ''.'')))"

definition dialect_LimitOffset :: "dialect \<Rightarrow> int64 \<Rightarrow> int64 \<Rightarrow> error + string" where
  "dialect_LimitOffset d limit offset =
     (if name d = pqDialect \<or> name d = mysqlDialect \<or> name d = sqlite3Dialect then
        if sint limit < 0 then Inl (Panic ''sqlx: the limit must be a positive integer'')
        else if offset = 0 then Inr (''LIMIT '' @ fmt_d (sint limit))
        else Inr (''LIMIT '' @ fmt_d (sint limit) @ '' OFFSET '' @ fmt_d (sint offset))
      else Inl (unknown_dialect d))"

text \<open>A value of the struct seen through the interface.\<close>

definition as_Dialect :: "dialect \<Rightarrow> Dialect" where
  "as_Dialect d =
     \<lparr> Name = dialect_Name d,
       Placeholder = dialect_Placeholder d,
       Quote = dialect_Quote d,
       LimitOffset = dialect_LimitOffset d \<rparr>"

definition MySQL :: Dialect where "MySQL = as_Dialect (dialect mysqlDialect)"
definition Sqlite3 :: Dialect where "Sqlite3 = as_Dialect (dialect sqlite3Dialect)"
definition Postgres :: Dialect where "Postgres = as_Dialect (dialect pqDialect)"

definition DefaultDialect :: Dialect where "DefaultDialect = MySQL"

text \<open>
  A builder whose dialect is \<^verbatim>\<open>nil\<close> builds with the default one. The variable
  \<^verbatim>\<open>DefaultDialect\<close> is taken at its initial value.
\<close>

definition dialect_or_default :: "Dialect option \<Rightarrow> Dialect" where
  "dialect_or_default d = (case d of None \<Rightarrow> DefaultDialect | Some d' \<Rightarrow> d')"

subsection \<open>The registry\<close>

text \<open>
  The package variable \<^verbatim>\<open>dialects\<close> is a map from names to dialects; the functions
  that read and write it take it and return it.
\<close>

type_synonym registry = "string \<rightharpoonup> Dialect"

definition RegisterDialect :: "Dialect \<Rightarrow> bool \<Rightarrow> registry \<Rightarrow> error + registry" where
  "RegisterDialect d force dialects =
     (let n = Name d in
      case dialects n of
        None \<Rightarrow> Inr (dialects(n \<mapsto> d))
      | Some _ \<Rightarrow>
          if \<not> force then
            Inl (Panic (''the sql dialect named '' @ [CHR 0x27] @ n @ [CHR 0x27] @ '' has been registered''))
          else Inr dialects)"

definition GetDialect :: "registry \<Rightarrow> string \<Rightarrow> Dialect option" where
  "GetDialect dialects n = dialects n"

text \<open>The registry after \<^verbatim>\<open>init\<close>: the three registrations, in the source's order.\<close>

definition init_dialects :: "error + registry" where
  "init_dialects =
     bindE (RegisterDialect MySQL False Map.empty) (\<lambda>r1.
     bindE (RegisterDialect Sqlite3 False r1) (\<lambda>r2.
     RegisterDialect Postgres False r2))"

section \<open>The argument accumulator and the interception hook\<close>

text \<open>
  Modelled from the spec: the type \<^verbatim>\<open>Interceptor\<close> and the function
  \<^verbatim>\<open>intercept\<close> are called by every Build and are not among the sources. The spec
  (section 6): a single optional function of shape (sql, args) -> (sql, args), invoked
  as the last step of every build. An absent hook returns the pair as it is.
\<close>

type_synonym 'v Interceptor = "string \<Rightarrow> 'v list \<Rightarrow> string \<times> 'v list"

definition intercept :: "'v Interceptor option \<Rightarrow> string \<Rightarrow> 'v list \<Rightarrow> string \<times> 'v list" where
  "intercept f sql args = (case f of None \<Rightarrow> (sql, args) | Some g \<Rightarrow> g sql args)"

text \<open>
  Modelled from the spec: the type \<^verbatim>\<open>ArgsBuilder\<close> with \<^verbatim>\<open>NewArgsBuilder\<close>,
  \<^verbatim>\<open>Add\<close> and \<^verbatim>\<open>Args\<close> is used by the builders and is not among the sources. The
  spec (section 4.2): add(value) appends the value to the ordered sequence and returns
  dialect.placeholder(currentCount), where currentCount is the 1-based position of this
  value among all values added so far; values() returns the accumulated values in
  insertion order. The accumulator is a pointer in the source: \<open>ArgsBuilder_Add\<close>
  returns it updated.
\<close>

record 'v ArgsBuilder =
  ab_dialect :: Dialect
  ab_args :: "'v list"

definition NewArgsBuilder :: "Dialect \<Rightarrow> 'v ArgsBuilder" where
  "NewArgsBuilder d = \<lparr> ab_dialect = d, ab_args = [] \<rparr>"

definition ArgsBuilder_Add :: "'v ArgsBuilder \<Rightarrow> 'v \<Rightarrow> error + (string \<times> 'v ArgsBuilder)" where
  "ArgsBuilder_Add ab v =
     (let ab' = ab\<lparr>ab_args := ab_args ab @ [v]\<rparr> in
      bindE (Placeholder (ab_dialect ab') (int (length (ab_args ab')))) (\<lambda>p. Inr (p, ab')))"

definition ArgsBuilder_Args :: "'v ArgsBuilder \<Rightarrow> 'v list" where
  "ArgsBuilder_Args ab = ab_args ab"

section \<open>Conditions and assignments\<close>

text \<open>
  Modelled from the spec: the interface \<^verbatim>\<open>Condition\<close> with \<^verbatim>\<open>Equal\<close> and
  \<^verbatim>\<open>And\<close> is used by the builders and is not among the sources. The spec (section
  4.3): a comparison of a column with a bound value contributes one placeholder, the
  column quoted by the active dialect; a logical AND/OR combination of child predicates
  is rendered as (child1 OP child2 OP ...). The test output \<^verbatim>\<open>"c3"=$1\<close> fixes the
  form of the comparison: quoted column, operator, placeholder, with nothing between.
\<close>

datatype 'v Condition =
    ColumnCondition string string 'v
  | And "'v Condition list"
  | Or "'v Condition list"

definition Equal :: "string \<Rightarrow> 'v \<Rightarrow> 'v Condition" where
  "Equal column v = ColumnCondition ''='' column v"

fun Condition_Build :: "'v Condition \<Rightarrow> 'v ArgsBuilder \<Rightarrow> error + (string \<times> 'v ArgsBuilder)"
  and Condition_BuildAll ::
    "string \<Rightarrow> string \<Rightarrow> nat \<Rightarrow> 'v Condition list \<Rightarrow> 'v ArgsBuilder \<Rightarrow> error + (string \<times> 'v ArgsBuilder)"
where
  "Condition_Build (ColumnCondition op column v) ab =
     bindE (Quote (ab_dialect ab) column) (\<lambda>q.
     bindE (ArgsBuilder_Add ab v) (\<lambda>(p, ab'). Inr (q @ op @ p, ab')))"
| "Condition_Build (And cs) ab =
     bindE (Condition_BuildAll '' AND '' ''('' 0 cs ab) (\<lambda>(buf, ab'). Inr (buf @ '')'', ab'))"
| "Condition_Build (Or cs) ab =
     bindE (Condition_BuildAll '' OR '' ''('' 0 cs ab) (\<lambda>(buf, ab'). Inr (buf @ '')'', ab'))"
| "Condition_BuildAll sep buf i [] ab = Inr (buf, ab)"
| "Condition_BuildAll sep buf i (c # cs) ab =
     bindE (Condition_Build c ab) (\<lambda>(s, ab').
       Condition_BuildAll sep (buf @ (if i > 0 then sep else []) @ s) (i + 1) cs ab')"

text \<open>
  Modelled from the spec: the assignment expressions \<^verbatim>\<open>Assign\<close>, \<^verbatim>\<open>Incr\<close>,
  \<^verbatim>\<open>Decr\<close>, \<^verbatim>\<open>Add\<close> and \<^verbatim>\<open>Sub\<close> are not among the sources. The spec (section
  4.3): direct value assignment col = ?, parameterized; increment and decrement by a
  literal step, the step inlined as SQL text, not parameterized; addition and
  subtraction of a bound value, col = col + ? and col = col - ?, parameterized. The
  test output fixes the spacing (none) and the step (1).
\<close>

datatype 'v Setter =
    Assign string 'v
  | Incr string
  | Decr string
  | Add string 'v
  | Sub string 'v

fun Setter_Build :: "'v Setter \<Rightarrow> 'v ArgsBuilder \<Rightarrow> error + (string \<times> 'v ArgsBuilder)" where
  "Setter_Build (Assign column v) ab =
     bindE (Quote (ab_dialect ab) column) (\<lambda>q.
     bindE (ArgsBuilder_Add ab v) (\<lambda>(p, ab'). Inr (q @ ''='' @ p, ab')))"
| "Setter_Build (Incr column) ab =
     bindE (Quote (ab_dialect ab) column) (\<lambda>q. Inr (q @ ''='' @ q @ ''+1'', ab))"
| "Setter_Build (Decr column) ab =
     bindE (Quote (ab_dialect ab) column) (\<lambda>q. Inr (q @ ''='' @ q @ ''-1'', ab))"
| "Setter_Build (Add column v) ab =
     bindE (Quote (ab_dialect ab) column) (\<lambda>q.
     bindE (ArgsBuilder_Add ab v) (\<lambda>(p, ab'). Inr (q @ ''='' @ q @ ''+'' @ p, ab')))"
| "Setter_Build (Sub column v) ab =
     bindE (Quote (ab_dialect ab) column) (\<lambda>q.
     bindE (ArgsBuilder_Add ab v) (\<lambda>(p, ab'). Inr (q @ ''='' @ q @ ''-'' @ p, ab')))"

text \<open>
  The WHERE clause as the builders write it: nothing for an empty list; otherwise the
  first condition, or the conjunction of all when there are several, built on the
  accumulator.
\<close>

definition write_where ::
  "string \<Rightarrow> 'v Condition list \<Rightarrow> 'v ArgsBuilder \<Rightarrow> error + (string \<times> 'v ArgsBuilder)" where
  "write_where buf wheres ab =
     (let n = length wheres in
      if n > 0 then
        let expr = (if n > 1 then And wheres else wheres ! 0) in
        bindE (Condition_Build expr ab) (\<lambda>(s, ab'). Inr (buf @ '' WHERE '' @ s, ab'))
      else Inr (buf, ab))"

section \<open>The INSERT builder\<close>

text \<open>
  The executor is the database connection, outside the composition engine: an opaque
  type. \<^verbatim>\<open>nil\<close> fields are \<open>None\<close>. The values are of any type \<open>'v\<close>.
\<close>

typedecl Executor

record 'v InsertBuilder =
  ins_intercept :: "'v Interceptor option"
  ins_executor :: "Executor option"
  ins_dialect :: "Dialect option"
  ins_verb :: string
  ins_table :: string
  ins_columns :: "string list"
  ins_values :: "'v list list"

definition NewInsertBuilder :: "'v InsertBuilder" where
  "NewInsertBuilder =
     \<lparr> ins_intercept = None, ins_executor = None, ins_dialect = Some DefaultDialect,
       ins_verb = [], ins_table = [], ins_columns = [], ins_values = [] \<rparr>"

definition Insert :: "'v InsertBuilder" where
  "Insert = NewInsertBuilder"

definition Into :: "'v InsertBuilder \<Rightarrow> string \<Rightarrow> 'v InsertBuilder" where
  "Into b table = b\<lparr>ins_verb := ''INSERT'', ins_table := table\<rparr>"

definition IgnoreInto :: "'v InsertBuilder \<Rightarrow> string \<Rightarrow> 'v InsertBuilder" where
  "IgnoreInto b table = b\<lparr>ins_verb := ''INSERT IGNORE'', ins_table := table\<rparr>"

definition ReplaceInto :: "'v InsertBuilder \<Rightarrow> string \<Rightarrow> 'v InsertBuilder" where
  "ReplaceInto b table = b\<lparr>ins_verb := ''REPLACE'', ins_table := table\<rparr>"

definition Columns :: "'v InsertBuilder \<Rightarrow> string list \<Rightarrow> 'v InsertBuilder" where
  "Columns b columns = b\<lparr>ins_columns := columns\<rparr>"

definition inconsistent_values :: error where
  "inconsistent_values = Panic ''InsertBuilder: the numbers of the values for INSERT are not consistent''"

definition Values :: "'v InsertBuilder \<Rightarrow> 'v list \<Rightarrow> error + 'v InsertBuilder" where
  "Values b vals =
     (if length (ins_values b) > 0 \<and> length (ins_values b ! 0) \<noteq> length vals
      then Inl inconsistent_values
      else Inr (b\<lparr>ins_values := ins_values b @ [vals]\<rparr>))"

text \<open>A \<^verbatim>\<open>sql.NamedArg\<close> is a name with a value.\<close>

definition NamedValues :: "'v InsertBuilder \<Rightarrow> (string \<times> 'v) list \<Rightarrow> error + 'v InsertBuilder" where
  "NamedValues b vals =
     (if length (ins_values b) > 0 \<and> length (ins_values b ! 0) \<noteq> length vals
      then Inl inconsistent_values
      else
        let cs = map fst vals; vs = map snd vals;
            b1 = (if length (ins_columns b) = 0 then b\<lparr>ins_columns := cs\<rparr> else b)
        in Inr (b1\<lparr>ins_values := ins_values b1 @ [vs]\<rparr>))"

definition InsertBuilder_SetInterceptor :: "'v InsertBuilder \<Rightarrow> 'v Interceptor option \<Rightarrow> 'v InsertBuilder" where
  "InsertBuilder_SetInterceptor b f = b\<lparr>ins_intercept := f\<rparr>"

definition InsertBuilder_SetDialect :: "'v InsertBuilder \<Rightarrow> Dialect option \<Rightarrow> 'v InsertBuilder" where
  "InsertBuilder_SetDialect b d = b\<lparr>ins_dialect := d\<rparr>"

text \<open>
  \<^verbatim>\<open>addValues\<close> without an accumulator: the loop \<^verbatim>\<open>for i := 1; i <= valnum; i++\<close>
  writes the placeholders 1 to \<open>valnum\<close>.
\<close>

function addValues_template :: "Dialect \<Rightarrow> string \<Rightarrow> nat \<Rightarrow> nat \<Rightarrow> error + string" where
  "addValues_template d buf i valnum =
     (if i \<le> valnum then
        bindE (Placeholder d (int i)) (\<lambda>p.
          addValues_template d (buf @ (if i > 1 then '', '' else []) @ p) (i + 1) valnum)
      else Inr buf)"
  by pat_completeness auto
termination
  by (relation "measure (\<lambda>(d, buf, i, valnum). valnum + 1 - i)") auto

declare addValues_template.simps [simp del]

text \<open>\<^verbatim>\<open>addValues\<close> with an accumulator: the loop over the values of one row.\<close>

fun addValues_row :: "string \<Rightarrow> 'v ArgsBuilder \<Rightarrow> nat \<Rightarrow> 'v list \<Rightarrow> error + (string \<times> 'v ArgsBuilder)" where
  "addValues_row buf ab i [] = Inr (buf, ab)"
| "addValues_row buf ab i (v # vs) =
     bindE (ArgsBuilder_Add ab v) (\<lambda>(p, ab').
       addValues_row (buf @ (if i > 0 then '', '' else []) @ p) ab' (i + 1) vs)"

definition addValues ::
  "Dialect \<Rightarrow> string \<Rightarrow> 'v ArgsBuilder option \<Rightarrow> nat \<Rightarrow> 'v list \<Rightarrow> error + (string \<times> 'v ArgsBuilder option)" where
  "addValues d buf ab valnum vals =
     (case ab of
        None \<Rightarrow> bindE (addValues_template d (buf @ ''('') 1 valnum) (\<lambda>buf'. Inr (buf' @ '')'', None))
      | Some a \<Rightarrow>
          bindE (addValues_row (buf @ ''('') a 0 vals) (\<lambda>(buf', a'). Inr (buf' @ '')'', Some a')))"

text \<open>The loop of \<^verbatim>\<open>Build\<close> over the rows.\<close>

fun Build_rows ::
  "Dialect \<Rightarrow> string \<Rightarrow> 'v ArgsBuilder option \<Rightarrow> nat \<Rightarrow> nat \<Rightarrow> 'v list list \<Rightarrow> error + (string \<times> 'v ArgsBuilder option)" where
  "Build_rows d buf ab valnum i [] = Inr (buf, ab)"
| "Build_rows d buf ab valnum i (vs # rest) =
     bindE (addValues d (buf @ (if i > 0 then '', '' else [])) ab valnum vs) (\<lambda>(buf', ab').
       Build_rows d buf' ab' valnum (i + 1) rest)"

text \<open>A loop that writes the quotations of a list of names, separated by commas.\<close>

fun write_quoted :: "Dialect \<Rightarrow> string \<Rightarrow> nat \<Rightarrow> string list \<Rightarrow> error + string" where
  "write_quoted d buf i [] = Inr buf"
| "write_quoted d buf i (c # cs) =
     bindE (Quote d c) (\<lambda>q. write_quoted d (buf @ (if i > 0 then '', '' else []) @ q) (i + 1) cs)"

definition nil_dereference :: error where
  "nil_dereference = Panic ''runtime error: invalid memory address or nil pointer dereference''"

text \<open>
  \<^verbatim>\<open>Build\<close>. The buffer taken from the pool is empty (\<^verbatim>\<open>putBuffer\<close> resets a buffer
  before it returns it to the pool), so the text starts empty.
\<close>

definition InsertBuilder_Build :: "'v InsertBuilder \<Rightarrow> error + (string \<times> 'v list)" where
  "InsertBuilder_Build b =
     (let vallen = length (ins_values b);
          valnum0 = (if vallen > 0 then length (ins_values b ! 0) else 0);
          colnum = length (ins_columns b)
      in
      bindE (if colnum = 0 then
               (if valnum0 = 0 then Inl (Panic ''InsertBuilder: no columns or values'') else Inr valnum0)
             else if valnum0 = 0 then Inr colnum
             else if colnum \<noteq> valnum0 then Inl (Panic ''InsertBuilder: len(columns) != len(values)'')
             else Inr valnum0) (\<lambda>valnum.
      if ins_table b = [] then Inl (Panic ''InsertBuilder: no table name'')
      else
        let d = dialect_or_default (ins_dialect b) in
        bindE (Quote d (ins_table b)) (\<lambda>qt.
        bindE (if colnum > 0 then
                 bindE (write_quoted d (ins_verb b @ '' INTO '' @ qt @ '' ('') 0 (ins_columns b))
                   (\<lambda>buf. Inr (buf @ '')''))
               else Inr (ins_verb b @ '' INTO '' @ qt)) (\<lambda>buf.
        bindE (if vallen = 0 then
                 bindE (addValues d (buf @ '' VALUES '') (None :: 'v ArgsBuilder option) valnum [])
                   (\<lambda>(buf', _). Inr (buf', []))
               else
                 bindE (Build_rows d (buf @ '' VALUES '') (Some (NewArgsBuilder d)) valnum 0 (ins_values b))
                   (\<lambda>(buf', ab). case ab of
                        None \<Rightarrow> Inl nil_dereference
                      | Some a \<Rightarrow> Inr (buf', ArgsBuilder_Args a))) (\<lambda>(sql, args).
        Inr (intercept (ins_intercept b) sql args))))))"

definition InsertBuilder_String :: "'v InsertBuilder \<Rightarrow> error + string" where
  "InsertBuilder_String b = bindE (InsertBuilder_Build b) (\<lambda>(sql, _). Inr sql)"

section \<open>The SELECT builder\<close>

datatype sqlTable = sqlTable (tbl_Table: string) (tbl_Alias: string)

datatype selectedColumn = selectedColumn (col_Column: string) (col_Alias: string)

text \<open>An \<^verbatim>\<open>Order\<close> is a string; the empty string is no order.\<close>

datatype orderby = orderby (ob_Column: string) (ob_Order: string)

definition Asc :: string where "Asc = ''ASC''"
definition Desc :: string where "Desc = ''DESC''"

datatype JoinOn = JoinOn (on_Left: string) (on_Right: string)

definition On :: "string \<Rightarrow> string \<Rightarrow> JoinOn" where
  "On left right = JoinOn left right"

datatype joinTable =
  joinTable (jt_Type: string) (jt_Table: string) (jt_Alias: string) (jt_Ons: "JoinOn list")

fun write_ons :: "Dialect \<Rightarrow> string \<Rightarrow> nat \<Rightarrow> JoinOn list \<Rightarrow> error + string" where
  "write_ons d buf i [] = Inr buf"
| "write_ons d buf i (on # ons) =
     bindE (Quote d (on_Left on)) (\<lambda>l.
     bindE (Quote d (on_Right on)) (\<lambda>r.
       write_ons d (buf @ (if i > 0 then '' AND '' else []) @ l @ ''='' @ r) (i + 1) ons))"

definition joinTable_Build :: "joinTable \<Rightarrow> string \<Rightarrow> Dialect \<Rightarrow> error + string" where
  "joinTable_Build jt buf d =
     (let buf1 = (if jt_Type jt \<noteq> [] then buf @ '' '' @ jt_Type jt else buf) in
      bindE (Quote d (jt_Table jt)) (\<lambda>qt.
      bindE (if jt_Alias jt \<noteq> [] then
               bindE (Quote d (jt_Alias jt)) (\<lambda>qa. Inr (buf1 @ '' JOIN '' @ qt @ '' AS '' @ qa))
             else Inr (buf1 @ '' JOIN '' @ qt)) (\<lambda>buf2.
      if length (jt_Ons jt) > 0 then write_ons d (buf2 @ '' ON '') 0 (jt_Ons jt) else Inr buf2)))"

text \<open>
  The embedded \<^verbatim>\<open>ConditionSet\<close> (not among the sources) only supplies constructors
  of conditions and holds no state that \<^verbatim>\<open>Build\<close> reads; it is left out.
\<close>

record 'v SelectBuilder =
  sel_intercept :: "'v Interceptor option"
  sel_executor :: "Executor option"
  sel_dialect :: "Dialect option"
  sel_distinct :: bool
  sel_tables :: "sqlTable list"
  sel_columns :: "selectedColumn list"
  sel_joins :: "joinTable list"
  sel_wheres :: "'v Condition list"
  sel_groupbys :: "string list"
  sel_havings :: "string list"
  sel_orderbys :: "orderby list"
  sel_limit :: int64
  sel_offset :: int64

definition getAlias :: "string \<Rightarrow> string list \<Rightarrow> string" where
  "getAlias column alias =
     (if length alias \<noteq> 0 \<and> alias ! 0 \<noteq> [] then alias ! 0
      else
        let index = IndexByte column (CHR ''.'') in
        if index \<noteq> -1 then
          let column' = slice_from column (index + 1);
              index' = IndexByte column' (CHR '')'')
          in if index' \<noteq> -1 then slice_to column' index' else column'
        else [])"

definition SelectBuilder_Select :: "'v SelectBuilder \<Rightarrow> string \<Rightarrow> string list \<Rightarrow> 'v SelectBuilder" where
  "SelectBuilder_Select b column alias =
     (if column \<noteq> [] then
        b\<lparr>sel_columns := sel_columns b @ [selectedColumn column (getAlias column alias)]\<rparr>
      else b)"

definition NewSelectBuilder :: "string \<Rightarrow> string list \<Rightarrow> 'v SelectBuilder" where
  "NewSelectBuilder column alias =
     SelectBuilder_Select
       \<lparr> sel_intercept = None, sel_executor = None, sel_dialect = Some DefaultDialect,
         sel_distinct = False, sel_tables = [], sel_columns = [], sel_joins = [],
         sel_wheres = [], sel_groupbys = [], sel_havings = [], sel_orderbys = [],
         sel_limit = 0, sel_offset = 0 \<rparr>
       column alias"

definition Distinct :: "'v SelectBuilder \<Rightarrow> 'v SelectBuilder" where
  "Distinct b = b\<lparr>sel_distinct := True\<rparr>"

definition From :: "'v SelectBuilder \<Rightarrow> string \<Rightarrow> string list \<Rightarrow> 'v SelectBuilder" where
  "From b table alias = b\<lparr>sel_tables := sel_tables b @ [sqlTable table (getAlias table alias)]\<rparr>"

definition joinTable_append ::
  "'v SelectBuilder \<Rightarrow> string \<Rightarrow> string \<Rightarrow> string \<Rightarrow> JoinOn list \<Rightarrow> 'v SelectBuilder" where
  "joinTable_append b cmd table alias ons =
     b\<lparr>sel_joins := sel_joins b @ [joinTable cmd table alias ons]\<rparr>"

definition SelectBuilder_Where :: "'v SelectBuilder \<Rightarrow> 'v Condition list \<Rightarrow> 'v SelectBuilder" where
  "SelectBuilder_Where b andConditions = b\<lparr>sel_wheres := sel_wheres b @ andConditions\<rparr>"

definition GroupBy :: "'v SelectBuilder \<Rightarrow> string list \<Rightarrow> 'v SelectBuilder" where
  "GroupBy b columns = b\<lparr>sel_groupbys := columns\<rparr>"

definition Having :: "'v SelectBuilder \<Rightarrow> string list \<Rightarrow> 'v SelectBuilder" where
  "Having b exprs = b\<lparr>sel_havings := sel_havings b @ exprs\<rparr>"

definition OrderBy :: "'v SelectBuilder \<Rightarrow> string \<Rightarrow> string list \<Rightarrow> 'v SelectBuilder" where
  "OrderBy b column order =
     b\<lparr>sel_orderbys := sel_orderbys b @
          [orderby column (if length order > 0 then order ! 0 else [])]\<rparr>"

definition Limit :: "'v SelectBuilder \<Rightarrow> int64 \<Rightarrow> 'v SelectBuilder" where
  "Limit b limit = b\<lparr>sel_limit := limit\<rparr>"

definition Offset :: "'v SelectBuilder \<Rightarrow> int64 \<Rightarrow> 'v SelectBuilder" where
  "Offset b offset = b\<lparr>sel_offset := offset\<rparr>"

definition SelectBuilder_SetInterceptor :: "'v SelectBuilder \<Rightarrow> 'v Interceptor option \<Rightarrow> 'v SelectBuilder" where
  "SelectBuilder_SetInterceptor b f = b\<lparr>sel_intercept := f\<rparr>"

definition SelectBuilder_SetDialect :: "'v SelectBuilder \<Rightarrow> Dialect option \<Rightarrow> 'v SelectBuilder" where
  "SelectBuilder_SetDialect b d = b\<lparr>sel_dialect := d\<rparr>"

text \<open>The loops of \<^verbatim>\<open>Build\<close>, one function each, in the order of the source.\<close>

fun write_columns :: "Dialect \<Rightarrow> string \<Rightarrow> nat \<Rightarrow> selectedColumn list \<Rightarrow> error + string" where
  "write_columns d buf i [] = Inr buf"
| "write_columns d buf i (c # cs) =
     bindE (Quote d (col_Column c)) (\<lambda>q.
     bindE (if col_Alias c \<noteq> [] then bindE (Quote d (col_Alias c)) (\<lambda>a. Inr ('' AS '' @ a))
            else Inr []) (\<lambda>al.
       write_columns d (buf @ (if i > 0 then '', '' else []) @ q @ al) (i + 1) cs))"

fun write_tables :: "Dialect \<Rightarrow> string \<Rightarrow> nat \<Rightarrow> sqlTable list \<Rightarrow> error + string" where
  "write_tables d buf i [] = Inr buf"
| "write_tables d buf i (t # ts) =
     bindE (Quote d (tbl_Table t)) (\<lambda>q.
     bindE (if tbl_Alias t \<noteq> [] then bindE (Quote d (tbl_Alias t)) (\<lambda>a. Inr ('' AS '' @ a))
            else Inr []) (\<lambda>al.
       write_tables d (buf @ (if i > 0 then '', '' else []) @ q @ al) (i + 1) ts))"

fun write_joins :: "Dialect \<Rightarrow> string \<Rightarrow> joinTable list \<Rightarrow> error + string" where
  "write_joins d buf [] = Inr buf"
| "write_joins d buf (j # js) = bindE (joinTable_Build j buf d) (\<lambda>buf'. write_joins d buf' js)"

fun write_havings :: "string \<Rightarrow> nat \<Rightarrow> string list \<Rightarrow> string" where
  "write_havings buf i [] = buf"
| "write_havings buf i (s # ss) = write_havings (buf @ (if i > 0 then '' AND '' else []) @ s) (i + 1) ss"

fun write_orderbys :: "Dialect \<Rightarrow> string \<Rightarrow> nat \<Rightarrow> orderby list \<Rightarrow> error + string" where
  "write_orderbys d buf i [] = Inr buf"
| "write_orderbys d buf i (ob # obs) =
     bindE (Quote d (ob_Column ob)) (\<lambda>q.
       write_orderbys d
         (buf @ (if i > 0 then '', '' else []) @ q @ (if ob_Order ob \<noteq> [] then '' '' @ ob_Order ob else []))
         (i + 1) obs)"

definition SelectBuilder_Build :: "'v SelectBuilder \<Rightarrow> error + (string \<times> 'v list)" where
  "SelectBuilder_Build b =
     (if length (sel_tables b) = 0 then Inl (Panic ''SelectBuilder: no table names'')
      else if length (sel_columns b) = 0 then Inl (Panic ''SelectBuilder: no selected columns'')
      else
        let d = dialect_or_default (sel_dialect b) in
        bindE (write_columns d (''SELECT '' @ (if sel_distinct b then ''DISTINCT '' else [])) 0
                 (sel_columns b)) (\<lambda>buf1.
        bindE (write_tables d (buf1 @ '' FROM '') 0 (sel_tables b)) (\<lambda>buf2.
        bindE (write_joins d buf2 (sel_joins b)) (\<lambda>buf3.
        bindE (let n = length (sel_wheres b) in
               if n > 0 then
                 let expr = (if n > 1 then And (sel_wheres b) else sel_wheres b ! 0) in
                 bindE (Condition_Build expr (NewArgsBuilder d)) (\<lambda>(s, ab).
                   Inr (buf3 @ '' WHERE '' @ s, ArgsBuilder_Args ab))
               else Inr (buf3, [])) (\<lambda>(buf4, args).
        bindE (if length (sel_groupbys b) > 0 then
                 bindE (write_quoted d (buf4 @ '' GROUP BY '') 0 (sel_groupbys b)) (\<lambda>buf.
                   Inr (if length (sel_havings b) > 0
                        then write_havings (buf @ '' HAVING '') 0 (sel_havings b) else buf))
               else Inr buf4) (\<lambda>buf5.
        bindE (if length (sel_orderbys b) > 0
               then write_orderbys d (buf5 @ '' ORDER BY '') 0 (sel_orderbys b)
               else Inr buf5) (\<lambda>buf6.
        bindE (if sint (sel_limit b) > 0 \<or> sint (sel_offset b) > 0 then
                 bindE (LimitOffset d (sel_limit b) (sel_offset b)) (\<lambda>lo. Inr (buf6 @ '' '' @ lo))
               else Inr buf6) (\<lambda>sql.
        Inr (intercept (sel_intercept b) sql args)))))))))"

definition SelectBuilder_String :: "'v SelectBuilder \<Rightarrow> error + string" where
  "SelectBuilder_String b = bindE (SelectBuilder_Build b) (\<lambda>(sql, _). Inr sql)"

section \<open>The UPDATE and DELETE builders\<close>

text \<open>
  Modelled from the spec: \<^verbatim>\<open>UpdateBuilder\<close> with \<^verbatim>\<open>Update\<close>, \<^verbatim>\<open>Table\<close> and
  \<^verbatim>\<open>Build\<close> is not among the sources. The spec (section 4.4): clause order UPDATE,
  quoted table, SET and the comma-joined assignment expressions, sharing one argument
  accumulator with the predicate list that follows, optional WHERE; a missing table
  name fails; a builder not assigned a dialect uses the default one (section 3). The
  spec has no sentence on the calls that configure the assignments and the predicates
  (\<^verbatim>\<open>Set\<close>, \<^verbatim>\<open>SetMore\<close>, \<^verbatim>\<open>Where\<close>), so they are not modelled: a builder is
  given by the fields that \<^verbatim>\<open>Build\<close> reads.
\<close>

record 'v UpdateBuilder =
  upd_intercept :: "'v Interceptor option"
  upd_executor :: "Executor option"
  upd_dialect :: "Dialect option"
  upd_table :: string
  upd_setters :: "'v Setter list"
  upd_wheres :: "'v Condition list"

definition NewUpdateBuilder :: "'v UpdateBuilder" where
  "NewUpdateBuilder =
     \<lparr> upd_intercept = None, upd_executor = None, upd_dialect = Some DefaultDialect,
       upd_table = [], upd_setters = [], upd_wheres = [] \<rparr>"

definition Update :: "'v UpdateBuilder" where
  "Update = NewUpdateBuilder"

definition Table :: "'v UpdateBuilder \<Rightarrow> string \<Rightarrow> 'v UpdateBuilder" where
  "Table b table = b\<lparr>upd_table := table\<rparr>"

fun write_setters ::
  "string \<Rightarrow> 'v ArgsBuilder \<Rightarrow> nat \<Rightarrow> 'v Setter list \<Rightarrow> error + (string \<times> 'v ArgsBuilder)" where
  "write_setters buf ab i [] = Inr (buf, ab)"
| "write_setters buf ab i (s # ss) =
     bindE (Setter_Build s ab) (\<lambda>(t, ab').
       write_setters (buf @ (if i > 0 then '', '' else []) @ t) ab' (i + 1) ss)"

definition UpdateBuilder_Build :: "'v UpdateBuilder \<Rightarrow> error + (string \<times> 'v list)" where
  "UpdateBuilder_Build b =
     (if upd_table b = [] then Inl (Panic ''UpdateBuilder: no table name'')
      else
        let d = dialect_or_default (upd_dialect b) in
        bindE (Quote d (upd_table b)) (\<lambda>qt.
        bindE (write_setters (''UPDATE '' @ qt @ '' SET '') (NewArgsBuilder d) 0 (upd_setters b))
          (\<lambda>(buf, ab).
        bindE (write_where buf (upd_wheres b) ab) (\<lambda>(sql, ab').
        Inr (intercept (upd_intercept b) sql (ArgsBuilder_Args ab'))))))"

text \<open>
  Modelled from the spec: \<^verbatim>\<open>DeleteBuilder\<close> is not among the sources. The spec
  (section 4.4): clause order DELETE FROM, quoted table, optional WHERE; a missing
  table name fails.
\<close>

record 'v DeleteBuilder =
  del_intercept :: "'v Interceptor option"
  del_executor :: "Executor option"
  del_dialect :: "Dialect option"
  del_table :: string
  del_wheres :: "'v Condition list"

definition DeleteBuilder_Build :: "'v DeleteBuilder \<Rightarrow> error + (string \<times> 'v list)" where
  "DeleteBuilder_Build b =
     (if del_table b = [] then Inl (Panic ''DeleteBuilder: no table name'')
      else
        let d = dialect_or_default (del_dialect b) in
        bindE (Quote d (del_table b)) (\<lambda>qt.
        bindE (write_where (''DELETE FROM '' @ qt) (del_wheres b) (NewArgsBuilder d)) (\<lambda>(sql, ab').
        Inr (intercept (del_intercept b) sql (ArgsBuilder_Args ab')))))"

section \<open>The layout of a statement\<close>

text \<open>
  The reading of a rendered statement that the alignment property speaks about: a
  sequence of fragments, each a piece of literal SQL text or a placeholder together
  with the value it binds, in textual order from left to right. \<open>numbered d n fs\<close> is
  the text of the fragments \<open>fs\<close> under the dialect \<open>d\<close> when \<open>n\<close> placeholders
  precede them: the k-th placeholder of \<open>fs\<close> is written \<open>Placeholder d (n + k)\<close>.
  \<open>bound_values fs\<close> lists the bound values from left to right. A pair of a text and
  an argument list is aligned with a layout when the text is the layout numbered from 1
  and the arguments are its bound values.
\<close>

datatype 'v frag = Text string | Bound 'v

fun bound_values :: "'v frag list \<Rightarrow> 'v list" where
  "bound_values [] = []"
| "bound_values (Text s # fs) = bound_values fs"
| "bound_values (Bound v # fs) = v # bound_values fs"

fun numbered :: "Dialect \<Rightarrow> nat \<Rightarrow> 'v frag list \<Rightarrow> error + string" where
  "numbered d n [] = Inr []"
| "numbered d n (Text s # fs) = bindE (numbered d n fs) (\<lambda>r. Inr (s @ r))"
| "numbered d n (Bound v # fs) =
     bindE (Placeholder d (int (n + 1))) (\<lambda>p.
     bindE (numbered d (n + 1) fs) (\<lambda>r. Inr (p @ r)))"

definition aligned :: "Dialect \<Rightarrow> 'v frag list \<Rightarrow> string \<Rightarrow> 'v list \<Rightarrow> bool" where
  "aligned d fs sql args = (numbered d 0 fs = Inr sql \<and> args = bound_values fs)"

text \<open>The quotation of a name where the dialect gives one.\<close>

definition quoted :: "Dialect \<Rightarrow> string \<Rightarrow> string" where
  "quoted d s = (case Quote d s of Inl e \<Rightarrow> [] | Inr q \<Rightarrow> q)"

text \<open>
  The layouts of the clauses that bind values: the value rows of an INSERT, a
  condition, the WHERE clause, the assignments of an UPDATE. Each value stands right
  where its placeholder is written: after the column and the operator of its
  comparison or assignment, or at its position in its row.
\<close>

fun values_layout :: "nat \<Rightarrow> 'v list \<Rightarrow> 'v frag list" where
  "values_layout i [] = []"
| "values_layout i (v # vs) = Text (if i > 0 then '', '' else []) # Bound v # values_layout (i + 1) vs"

fun rows_layout :: "nat \<Rightarrow> 'v list list \<Rightarrow> 'v frag list" where
  "rows_layout i [] = []"
| "rows_layout i (vs # rest) =
     Text ((if i > 0 then '', '' else []) @ ''('') # values_layout 0 vs @ Text '')'' # rows_layout (i + 1) rest"

fun Condition_layout :: "Dialect \<Rightarrow> 'v Condition \<Rightarrow> 'v frag list"
  and Conditions_layout :: "Dialect \<Rightarrow> string \<Rightarrow> nat \<Rightarrow> 'v Condition list \<Rightarrow> 'v frag list"
where
  "Condition_layout d (ColumnCondition op column v) = [Text (quoted d column @ op), Bound v]"
| "Condition_layout d (And cs) = Text ''('' # Conditions_layout d '' AND '' 0 cs @ [Text '')'']"
| "Condition_layout d (Or cs) = Text ''('' # Conditions_layout d '' OR '' 0 cs @ [Text '')'']"
| "Conditions_layout d sep i [] = []"
| "Conditions_layout d sep i (c # cs) =
     Text (if i > 0 then sep else []) # Condition_layout d c @ Conditions_layout d sep (i + 1) cs"

definition where_layout :: "Dialect \<Rightarrow> 'v Condition list \<Rightarrow> 'v frag list" where
  "where_layout d wheres =
     (if length wheres > 0
      then Text '' WHERE '' # Condition_layout d (if length wheres > 1 then And wheres else wheres ! 0)
      else [])"

fun Setter_layout :: "Dialect \<Rightarrow> 'v Setter \<Rightarrow> 'v frag list" where
  "Setter_layout d (Assign column v) = [Text (quoted d column @ ''=''), Bound v]"
| "Setter_layout d (Incr column) = [Text (quoted d column @ ''='' @ quoted d column @ ''+1'')]"
| "Setter_layout d (Decr column) = [Text (quoted d column @ ''='' @ quoted d column @ ''-1'')]"
| "Setter_layout d (Add column v) = [Text (quoted d column @ ''='' @ quoted d column @ ''+''), Bound v]"
| "Setter_layout d (Sub column v) = [Text (quoted d column @ ''='' @ quoted d column @ ''-''), Bound v]"

fun setters_layout :: "Dialect \<Rightarrow> nat \<Rightarrow> 'v Setter list \<Rightarrow> 'v frag list" where
  "setters_layout d i [] = []"
| "setters_layout d i (s # ss) =
     Text (if i > 0 then '', '' else []) # Setter_layout d s @ setters_layout d (i + 1) ss"

text \<open>
  The literal text of the other clauses, as the loops of the builders write it, with
  \<open>quoted\<close> for the quotations and \<open>placeholder\<close> for the placeholders that bind no
  value (the template of an INSERT without rows).
\<close>

definition placeholder :: "Dialect \<Rightarrow> int \<Rightarrow> string" where
  "placeholder d i = (case Placeholder d i of Inl e \<Rightarrow> [] | Inr p \<Rightarrow> p)"

fun template_text :: "Dialect \<Rightarrow> nat \<Rightarrow> nat \<Rightarrow> string" where
  "template_text d i 0 = []"
| "template_text d i (Suc k) =
     (if i > 1 then '', '' else []) @ placeholder d (int i) @ template_text d (i + 1) k"

fun quoted_list :: "Dialect \<Rightarrow> nat \<Rightarrow> string list \<Rightarrow> string" where
  "quoted_list d i [] = []"
| "quoted_list d i (c # cs) = (if i > 0 then '', '' else []) @ quoted d c @ quoted_list d (i + 1) cs"

fun columns_text :: "Dialect \<Rightarrow> nat \<Rightarrow> selectedColumn list \<Rightarrow> string" where
  "columns_text d i [] = []"
| "columns_text d i (c # cs) =
     (if i > 0 then '', '' else []) @ quoted d (col_Column c)
     @ (if col_Alias c \<noteq> [] then '' AS '' @ quoted d (col_Alias c) else [])
     @ columns_text d (i + 1) cs"

fun tables_text :: "Dialect \<Rightarrow> nat \<Rightarrow> sqlTable list \<Rightarrow> string" where
  "tables_text d i [] = []"
| "tables_text d i (t # ts) =
     (if i > 0 then '', '' else []) @ quoted d (tbl_Table t)
     @ (if tbl_Alias t \<noteq> [] then '' AS '' @ quoted d (tbl_Alias t) else [])
     @ tables_text d (i + 1) ts"

fun ons_text :: "Dialect \<Rightarrow> nat \<Rightarrow> JoinOn list \<Rightarrow> string" where
  "ons_text d i [] = []"
| "ons_text d i (on # ons) =
     (if i > 0 then '' AND '' else []) @ quoted d (on_Left on) @ ''='' @ quoted d (on_Right on)
     @ ons_text d (i + 1) ons"

definition join_text :: "Dialect \<Rightarrow> joinTable \<Rightarrow> string" where
  "join_text d jt =
     (if jt_Type jt \<noteq> [] then '' '' @ jt_Type jt else []) @ '' JOIN '' @ quoted d (jt_Table jt)
     @ (if jt_Alias jt \<noteq> [] then '' AS '' @ quoted d (jt_Alias jt) else [])
     @ (if length (jt_Ons jt) > 0 then '' ON '' @ ons_text d 0 (jt_Ons jt) else [])"

fun joins_text :: "Dialect \<Rightarrow> joinTable list \<Rightarrow> string" where
  "joins_text d [] = []"
| "joins_text d (j # js) = join_text d j @ joins_text d js"

fun havings_text :: "nat \<Rightarrow> string list \<Rightarrow> string" where
  "havings_text i [] = []"
| "havings_text i (s # ss) = (if i > 0 then '' AND '' else []) @ s @ havings_text (i + 1) ss"

fun orderbys_text :: "Dialect \<Rightarrow> nat \<Rightarrow> orderby list \<Rightarrow> string" where
  "orderbys_text d i [] = []"
| "orderbys_text d i (ob # obs) =
     (if i > 0 then '', '' else []) @ quoted d (ob_Column ob)
     @ (if ob_Order ob \<noteq> [] then '' '' @ ob_Order ob else [])
     @ orderbys_text d (i + 1) obs"

definition limit_text :: "Dialect \<Rightarrow> int64 \<Rightarrow> int64 \<Rightarrow> string" where
  "limit_text d limit offset = (case LimitOffset d limit offset of Inl e \<Rightarrow> [] | Inr t \<Rightarrow> t)"

text \<open>
  The layout of each statement, whole: every byte of the text is in a fragment, and the
  only placeholders that bind a value are the \<open>Bound\<close> fragments. An INSERT without
  rows binds nothing: its group of placeholders, one for each column, is literal text.
\<close>

definition insert_head :: "Dialect \<Rightarrow> 'v InsertBuilder \<Rightarrow> string" where
  "insert_head d b =
     ins_verb b @ '' INTO '' @ quoted d (ins_table b)
     @ (if length (ins_columns b) > 0 then '' ('' @ quoted_list d 0 (ins_columns b) @ '')'' else [])
     @ '' VALUES ''"

definition InsertBuilder_layout :: "Dialect \<Rightarrow> 'v InsertBuilder \<Rightarrow> 'v frag list" where
  "InsertBuilder_layout d b =
     Text (insert_head d b)
     # (if length (ins_values b) = 0
        then [Text (''('' @ template_text d 1 (length (ins_columns b)) @ '')'')]
        else rows_layout 0 (ins_values b))"

definition select_head :: "Dialect \<Rightarrow> 'v SelectBuilder \<Rightarrow> string" where
  "select_head d b =
     ''SELECT '' @ (if sel_distinct b then ''DISTINCT '' else [])
     @ columns_text d 0 (sel_columns b)
     @ '' FROM '' @ tables_text d 0 (sel_tables b)
     @ joins_text d (sel_joins b)"

definition select_tail :: "Dialect \<Rightarrow> 'v SelectBuilder \<Rightarrow> string" where
  "select_tail d b =
     (if length (sel_groupbys b) > 0 then
        '' GROUP BY '' @ quoted_list d 0 (sel_groupbys b)
        @ (if length (sel_havings b) > 0 then '' HAVING '' @ havings_text 0 (sel_havings b) else [])
      else [])
     @ (if length (sel_orderbys b) > 0 then '' ORDER BY '' @ orderbys_text d 0 (sel_orderbys b) else [])
     @ (if sint (sel_limit b) > 0 \<or> sint (sel_offset b) > 0
        then '' '' @ limit_text d (sel_limit b) (sel_offset b) else [])"

definition SelectBuilder_layout :: "Dialect \<Rightarrow> 'v SelectBuilder \<Rightarrow> 'v frag list" where
  "SelectBuilder_layout d b =
     Text (select_head d b) # where_layout d (sel_wheres b) @ [Text (select_tail d b)]"

definition UpdateBuilder_layout :: "Dialect \<Rightarrow> 'v UpdateBuilder \<Rightarrow> 'v frag list" where
  "UpdateBuilder_layout d b =
     Text (''UPDATE '' @ quoted d (upd_table b) @ '' SET '')
     # setters_layout d 0 (upd_setters b) @ where_layout d (upd_wheres b)"

definition DeleteBuilder_layout :: "Dialect \<Rightarrow> 'v DeleteBuilder \<Rightarrow> 'v frag list" where
  "DeleteBuilder_layout d b =
     Text (''DELETE FROM '' @ quoted d (del_table b)) # where_layout d (del_wheres b)"

section \<open>The calls of Build and String on the package state\<close>

text \<open>
  \<^verbatim>\<open>Build\<close> and \<^verbatim>\<open>String\<close> have pointer receivers and work on package variables:
  the variable \<^verbatim>\<open>DefaultDialect\<close> and the pool of buffers \<^verbatim>\<open>bufpool\<close>. A call is a
  program on the state that holds the receiver and these variables: it returns a value
  or panics, and it leaves a state. The pool is the list of the buffers at rest in it,
  each by its content.
\<close>

record 'b world =
  receiver :: 'b
  var_DefaultDialect :: Dialect
  bufpool :: "string list"

type_synonym ('b, 'a) call = "'b world \<Rightarrow> (error + 'a) \<times> 'b world"

text \<open>
  The steps a method body is made of: returning, panicking, one step after another
  (a panic ends the call in the state it happened in), a computation on local values
  (the loops that write to the buffer, the methods of the dialect), reading a field of
  the receiver, reading \<^verbatim>\<open>DefaultDialect\<close>, \<^verbatim>\<open>getBuffer\<close> (a buffer of the pool, or
  a new, empty one when the pool has none) and \<^verbatim>\<open>putBuffer\<close> (the buffer is reset,
  then put into the pool).
\<close>

definition ret :: "'a \<Rightarrow> ('b, 'a) call" where
  "ret a = (\<lambda>w. (Inr a, w))"

definition panic :: "error \<Rightarrow> ('b, 'a) call" where
  "panic e = (\<lambda>w. (Inl e, w))"

definition bindS :: "('b, 'a) call \<Rightarrow> ('a \<Rightarrow> ('b, 'c) call) \<Rightarrow> ('b, 'c) call" where
  "bindS m k = (\<lambda>w. case m w of (Inl e, w') \<Rightarrow> (Inl e, w') | (Inr a, w') \<Rightarrow> k a w')"

definition compute :: "error + 'a \<Rightarrow> ('b, 'a) call" where
  "compute m = (\<lambda>w. (m, w))"

definition read_field :: "('b \<Rightarrow> 'a) \<Rightarrow> ('b, 'a) call" where
  "read_field f = (\<lambda>w. (Inr (f (receiver w)), w))"

definition read_DefaultDialect :: "('b, Dialect) call" where
  "read_DefaultDialect = (\<lambda>w. (Inr (var_DefaultDialect w), w))"

definition getBuffer :: "('b, string) call" where
  "getBuffer =
     (\<lambda>w. case bufpool w of
             [] \<Rightarrow> (Inr [], w)
           | buf # rest \<Rightarrow> (Inr buf, w\<lparr>bufpool := rest\<rparr>))"

definition putBuffer :: "string \<Rightarrow> ('b, unit) call" where
  "putBuffer buf = (\<lambda>w. (Inr (), w\<lparr>bufpool := [] # bufpool w\<rparr>))"

text \<open>
  \<^verbatim>\<open>InsertBuilder.Build\<close>, statement by statement: the fields are read where the
  source reads them, the buffer is taken after the checks and the choice of the
  dialect, the writes go to that buffer, and the buffer is put back before the hook is
  called.
\<close>

definition InsertBuilder_Build_steps :: "('v InsertBuilder, string \<times> 'v list) call" where
  "InsertBuilder_Build_steps =
     bindS (read_field ins_values) (\<lambda>vals.
     bindS (read_field ins_columns) (\<lambda>cols.
     let vallen = length vals;
         valnum0 = (if vallen > 0 then length (vals ! 0) else 0);
         colnum = length cols
     in
     bindS (compute
              (if colnum = 0 then
                 (if valnum0 = 0 then Inl (Panic ''InsertBuilder: no columns or values'')
                  else Inr valnum0)
               else if valnum0 = 0 then Inr colnum
               else if colnum \<noteq> valnum0
               then Inl (Panic ''InsertBuilder: len(columns) != len(values)'')
               else Inr valnum0)) (\<lambda>valnum.
     bindS (read_field ins_table) (\<lambda>table.
     if table = [] then panic (Panic ''InsertBuilder: no table name'')
     else
       bindS (read_field ins_dialect) (\<lambda>dialect0.
       bindS (case dialect0 of None \<Rightarrow> read_DefaultDialect | Some d' \<Rightarrow> ret d') (\<lambda>d.
       bindS getBuffer (\<lambda>buf.
       bindS (read_field ins_verb) (\<lambda>verb.
       bindS (compute (Quote d table)) (\<lambda>qt.
       bindS (compute
                (if colnum > 0 then
                   bindE (write_quoted d (buf @ verb @ '' INTO '' @ qt @ '' ('') 0 cols)
                     (\<lambda>buf'. Inr (buf' @ '')''))
                 else Inr (buf @ verb @ '' INTO '' @ qt))) (\<lambda>buf1.
       bindS (compute
                (if vallen = 0 then
                   bindE (addValues d (buf1 @ '' VALUES '') (None :: 'v ArgsBuilder option) valnum [])
                     (\<lambda>(buf', _). Inr (buf', []))
                 else
                   bindE (Build_rows d (buf1 @ '' VALUES '') (Some (NewArgsBuilder d)) valnum 0 vals)
                     (\<lambda>(buf', ab). case ab of
                          None \<Rightarrow> Inl nil_dereference
                        | Some a \<Rightarrow> Inr (buf', ArgsBuilder_Args a)))) (\<lambda>(sql, args).
       bindS (putBuffer sql) (\<lambda>_.
       bindS (read_field ins_intercept) (\<lambda>f.
       ret (intercept f sql args))))))))))))))"

definition InsertBuilder_String_steps :: "('v InsertBuilder, string) call" where
  "InsertBuilder_String_steps = bindS InsertBuilder_Build_steps (\<lambda>(sql, _). ret sql)"

text \<open>
  \<^verbatim>\<open>SelectBuilder.Build\<close>: the buffer is taken right after the two checks, before the
  dialect is chosen.
\<close>

definition SelectBuilder_Build_steps :: "('v SelectBuilder, string \<times> 'v list) call" where
  "SelectBuilder_Build_steps =
     bindS (read_field sel_tables) (\<lambda>tables.
     bindS (read_field sel_columns) (\<lambda>cols.
     if length tables = 0 then panic (Panic ''SelectBuilder: no table names'')
     else if length cols = 0 then panic (Panic ''SelectBuilder: no selected columns'')
     else
       bindS getBuffer (\<lambda>buf.
       bindS (read_field sel_distinct) (\<lambda>distinct0.
       bindS (read_field sel_dialect) (\<lambda>dialect0.
       bindS (case dialect0 of None \<Rightarrow> read_DefaultDialect | Some d' \<Rightarrow> ret d') (\<lambda>d.
       bindS (compute
                (write_columns d (buf @ ''SELECT '' @ (if distinct0 then ''DISTINCT '' else [])) 0 cols))
         (\<lambda>buf1.
       bindS (compute (write_tables d (buf1 @ '' FROM '') 0 tables)) (\<lambda>buf2.
       bindS (read_field sel_joins) (\<lambda>joins.
       bindS (compute (write_joins d buf2 joins)) (\<lambda>buf3.
       bindS (read_field sel_wheres) (\<lambda>wheres.
       bindS (compute
                (if length wheres > 0 then
                   bindE (Condition_Build (if length wheres > 1 then And wheres else wheres ! 0)
                            (NewArgsBuilder d))
                     (\<lambda>(s, ab). Inr (buf3 @ '' WHERE '' @ s, ArgsBuilder_Args ab))
                 else Inr (buf3, []))) (\<lambda>(buf4, args).
       bindS (read_field sel_groupbys) (\<lambda>groupbys.
       bindS (read_field sel_havings) (\<lambda>havings.
       bindS (compute
                (if length groupbys > 0 then
                   bindE (write_quoted d (buf4 @ '' GROUP BY '') 0 groupbys) (\<lambda>buf'.
                     Inr (if length havings > 0
                          then write_havings (buf' @ '' HAVING '') 0 havings else buf'))
                 else Inr buf4)) (\<lambda>buf5.
       bindS (read_field sel_orderbys) (\<lambda>orderbys.
       bindS (compute
                (if length orderbys > 0
                 then write_orderbys d (buf5 @ '' ORDER BY '') 0 orderbys
                 else Inr buf5)) (\<lambda>buf6.
       bindS (read_field sel_limit) (\<lambda>limit.
       bindS (read_field sel_offset) (\<lambda>offset.
       bindS (compute
                (if sint limit > 0 \<or> sint offset > 0 then
                   bindE (LimitOffset d limit offset) (\<lambda>lo. Inr (buf6 @ '' '' @ lo))
                 else Inr buf6)) (\<lambda>sql.
       bindS (putBuffer sql) (\<lambda>_.
       bindS (read_field sel_intercept) (\<lambda>f.
       ret (intercept f sql args)))))))))))))))))))))))"

definition SelectBuilder_String_steps :: "('v SelectBuilder, string) call" where
  "SelectBuilder_String_steps = bindS SelectBuilder_Build_steps (\<lambda>(sql, _). ret sql)"

text \<open>
  Modelled from the spec: the bodies of \<^verbatim>\<open>UpdateBuilder.Build\<close>,
  \<^verbatim>\<open>DeleteBuilder.Build\<close> and their \<^verbatim>\<open>String\<close> are not among the sources. The spec
  (section 4.4): build is a pure read of the builder's state; a missing table name
  fails. Section 5: a transient buffer is drawn from the pool before use and reset and
  returned after use. Section 6: string is build with the args discarded; the hook is
  the last step of every build. The order of the steps follows the INSERT builder.
\<close>

definition UpdateBuilder_Build_steps :: "('v UpdateBuilder, string \<times> 'v list) call" where
  "UpdateBuilder_Build_steps =
     bindS (read_field upd_table) (\<lambda>table.
     if table = [] then panic (Panic ''UpdateBuilder: no table name'')
     else
       bindS (read_field upd_dialect) (\<lambda>dialect0.
       bindS (case dialect0 of None \<Rightarrow> read_DefaultDialect | Some d' \<Rightarrow> ret d') (\<lambda>d.
       bindS getBuffer (\<lambda>buf.
       bindS (compute (Quote d table)) (\<lambda>qt.
       bindS (read_field upd_setters) (\<lambda>setters.
       bindS (compute (write_setters (buf @ ''UPDATE '' @ qt @ '' SET '') (NewArgsBuilder d) 0 setters))
         (\<lambda>(buf1, ab).
       bindS (read_field upd_wheres) (\<lambda>wheres.
       bindS (compute (write_where buf1 wheres ab)) (\<lambda>(sql, ab').
       bindS (putBuffer sql) (\<lambda>_.
       bindS (read_field upd_intercept) (\<lambda>f.
       ret (intercept f sql (ArgsBuilder_Args ab')))))))))))))"

definition UpdateBuilder_String_steps :: "('v UpdateBuilder, string) call" where
  "UpdateBuilder_String_steps = bindS UpdateBuilder_Build_steps (\<lambda>(sql, _). ret sql)"

definition DeleteBuilder_Build_steps :: "('v DeleteBuilder, string \<times> 'v list) call" where
  "DeleteBuilder_Build_steps =
     bindS (read_field del_table) (\<lambda>table.
     if table = [] then panic (Panic ''DeleteBuilder: no table name'')
     else
       bindS (read_field del_dialect) (\<lambda>dialect0.
       bindS (case dialect0 of None \<Rightarrow> read_DefaultDialect | Some d' \<Rightarrow> ret d') (\<lambda>d.
       bindS getBuffer (\<lambda>buf.
       bindS (compute (Quote d table)) (\<lambda>qt.
       bindS (read_field del_wheres) (\<lambda>wheres.
       bindS (compute (write_where (buf @ ''DELETE FROM '' @ qt) wheres (NewArgsBuilder d)))
         (\<lambda>(sql, ab').
       bindS (putBuffer sql) (\<lambda>_.
       bindS (read_field del_intercept) (\<lambda>f.
       ret (intercept f sql (ArgsBuilder_Args ab')))))))))))"

definition DeleteBuilder_String_steps :: "('v DeleteBuilder, string) call" where
  "DeleteBuilder_String_steps = bindS DeleteBuilder_Build_steps (\<lambda>(sql, _). ret sql)"

text \<open>
  A method that assigns to a field of the receiver is a step too: \<^verbatim>\<open>SetDialect\<close> of
  the INSERT builder, \<^verbatim>\<open>b.dialect = dialect\<close>.
\<close>

definition assign_receiver :: "('b \<Rightarrow> 'b) \<Rightarrow> ('b, unit) call" where
  "assign_receiver f = (\<lambda>w. (Inr (), w\<lparr>receiver := f (receiver w)\<rparr>))"

definition InsertBuilder_SetDialect_steps :: "Dialect option \<Rightarrow> ('v InsertBuilder, unit) call" where
  "InsertBuilder_SetDialect_steps dialect0 =
     assign_receiver (\<lambda>b. InsertBuilder_SetDialect b dialect0)"

text \<open>
  A buffer at rest in the pool is empty: \<^verbatim>\<open>putBuffer\<close> is the only function that puts
  one there, and it resets it first. \<open>preserves m\<close>: from a state with such a pool the
  call \<open>m\<close> leaves the receiver and \<^verbatim>\<open>DefaultDialect\<close> as they were, and again such a
  pool.
\<close>

definition pool_ok :: "'b world \<Rightarrow> bool" where
  "pool_ok w = list_all (\<lambda>buf. buf = []) (bufpool w)"

definition preserves :: "('b, 'a) call \<Rightarrow> bool" where
  "preserves m =
     (\<forall>w. pool_ok w \<longrightarrow>
        receiver (snd (m w)) = receiver w
        \<and> var_DefaultDialect (snd (m w)) = var_DefaultDialect w
        \<and> pool_ok (snd (m w)))"

section \<open>Values and dialects of the examples\<close>

text \<open>The values the examples bind are Go strings and integers.\<close>

datatype val = GoString string | GoInt int

text \<open>A dialect of the caller's that takes the name of a built-in one.\<close>

definition named_mysql :: Dialect where
  "named_mysql = MySQL\<lparr>Placeholder := (\<lambda>i. Inr ('':'' @ fmt_d i))\<rparr>"

text \<open>The quote character of a built-in dialect, as \<^verbatim>\<open>isQuoted\<close> and \<^verbatim>\<open>_quote\<close> have it.\<close>

definition quote_char :: "dialect \<Rightarrow> char" where
  "quote_char d = (if name d = mysqlDialect then CHR 0x60 else CHR 0x22)"

definition builtin :: "dialect \<Rightarrow> bool" where
  "builtin d = (name d = pqDialect \<or> name d = mysqlDialect \<or> name d = sqlite3Dialect)"

section \<open>Evaluation\<close>

lemma bindE_Inr [simp]: "bindE (Inr v) f = f v"
  by (simp add: bindE_def)

lemma bindE_Inl [simp]: "bindE (Inl e) f = Inl e"
  by (simp add: bindE_def)

lemma bindE_eq_Inr: "bindE m f = Inr y \<longleftrightarrow> (\<exists>x. m = Inr x \<and> f x = Inr y)"
  by (cases m) simp_all

lemmas name_defs = pqDialect_def mysqlDialect_def sqlite3Dialect_def

lemmas builtin_defs = MySQL_def Postgres_def Sqlite3_def DefaultDialect_def dialect_or_default_def
  as_Dialect_def dialect_Name_def dialect_Placeholder_def dialect_Quote_def dialect_quote_def
  dialect_isQuoted_def dialect__quote_def dialect_LimitOffset_def name_defs
  slice_from_def slice_to_def fmt_d_def digits.simps

lemmas accumulator_defs = NewArgsBuilder_def ArgsBuilder_Add_def ArgsBuilder_Args_def intercept_def

section \<open>The scenario of the UPDATE builder\<close>

text \<open>
  C2. Under the default dialect (mysql: backtick, \<^verbatim>\<open>?\<close>), the UPDATE on \<^verbatim>\<open>table\<close>
  with the assignments \<^verbatim>\<open>Assign("c1","v1")\<close>, \<^verbatim>\<open>Incr("c2")\<close>, \<^verbatim>\<open>Assign("c3",123)\<close>,
  \<^verbatim>\<open>Add("c4",456)\<close> builds the text and the arguments of the example: the increment
  writes its step 1 into the text and binds nothing; each of the other three binds one
  argument through a placeholder.
\<close>

theorem update_mixed_assignments:
  "UpdateBuilder_Build
     ((Table Update ''table'')
        \<lparr>upd_setters :=
           [Assign ''c1'' (GoString ''v1''), Incr ''c2'',
            Assign ''c3'' (GoInt 123), Add ''c4'' (GoInt 456)]\<rparr>)
   = Inr (''UPDATE `table` SET `c1`=?, `c2`=`c2`+1, `c3`=?, `c4`=`c4`+?'',
          [GoString ''v1'', GoInt 123, GoInt 456])"
  by (simp add: builtin_defs accumulator_defs UpdateBuilder_Build_def
      Table_def Update_def NewUpdateBuilder_def write_where_def)

section \<open>Quoting a function call on a qualified column\<close>

text \<open>
  C3. Under the mysql dialect \<^verbatim>\<open>Quote("COUNT(t.c)")\<close> is not \<^verbatim>\<open>COUNT(`t`.`c`)\<close>:
  \<^verbatim>\<open>Quote\<close> splits at the dot before \<^verbatim>\<open>quote\<close> looks for the parentheses, so the
  piece \<^verbatim>\<open>COUNT(t\<close> has no closing parenthesis and stays as it is, and the piece
  \<^verbatim>\<open>c)\<close> is quoted whole. Without the qualifier the function name is left bare and
  the column is quoted.
\<close>

theorem quote_function_call_qualified:
  "Quote MySQL ''COUNT(t.c)'' = Inr ''COUNT(t.`c)`''
   \<and> Quote MySQL ''COUNT(t.c)'' \<noteq> Inr ''COUNT(`t`.`c`)''
   \<and> Quote MySQL ''COUNT(c)'' = Inr ''COUNT(`c`)''"
  by (simp add: builtin_defs)

section \<open>The registry of dialects\<close>

text \<open>
  C4. On the registry that \<^verbatim>\<open>init\<close> leaves, registering a dialect of the name
  \<^verbatim>\<open>mysql\<close> panics without \<^verbatim>\<open>force\<close>; with \<^verbatim>\<open>force\<close> the call returns and the
  registry is unchanged: the name still maps to the built-in dialect, not to the one
  supplied. A name never registered is looked up as \<^verbatim>\<open>nil\<close>.
\<close>

theorem register_force_keeps_registered:
  "\<exists>r. init_dialects = Inr r
      \<and> Name named_mysql = ''mysql''
      \<and> GetDialect r ''mysql'' = Some MySQL
      \<and> RegisterDialect named_mysql False r
          = Inl (Panic ''the sql dialect named 'mysql' has been registered'')
      \<and> RegisterDialect named_mysql True r = Inr r
      \<and> Placeholder MySQL 1 = Inr ''?''
      \<and> Placeholder named_mysql 1 = Inr '':1''
      \<and> GetDialect r ''oracle'' = None"
  by (simp add: init_dialects_def RegisterDialect_def GetDialect_def named_mysql_def
      builtin_defs Let_def)

section \<open>The width of the rows of an INSERT\<close>

text \<open>
  C5. A second row of another width is refused by \<^verbatim>\<open>Values\<close> at once, and
  \<^verbatim>\<open>Build\<close> refuses one column with a row of two values. With two columns and a first
  row of no values \<^verbatim>\<open>Build\<close> does not fail: it returns a statement with an empty
  group of values.
\<close>

theorem insert_empty_first_row_builds:
  "bindE (Values (Columns (Into Insert ''t'') [''c1'', ''c2'']) ([] :: val list)) InsertBuilder_Build
     = Inr (''INSERT INTO `t` (`c1`, `c2`) VALUES ()'', [])
   \<and> bindE (Values (Into Insert ''t'') [GoInt 1]) (\<lambda>b. Values b [GoInt 1, GoInt 2])
     = Inl inconsistent_values
   \<and> bindE (Values (Columns (Into Insert ''t'') [''c1'']) [GoInt 1, GoInt 2]) InsertBuilder_Build
     = Inl (Panic ''InsertBuilder: len(columns) != len(values)'')"
  by (simp add: Values_def Columns_def Into_def Insert_def NewInsertBuilder_def
      InsertBuilder_Build_def builtin_defs accumulator_defs addValues_def)

section \<open>Pagination\<close>

text \<open>
  C6. For each built-in dialect and all 64-bit \<open>limit\<close> and \<open>offset\<close>:
  \<^verbatim>\<open>LimitOffset\<close> panics exactly when the limit is negative, and otherwise returns
  \<^verbatim>\<open>LIMIT n\<close>, followed by \<^verbatim>\<open>OFFSET m\<close> exactly when the offset is not zero; so
  (10, 0) gives \<^verbatim>\<open>LIMIT 10\<close> and (10, 20) gives \<^verbatim>\<open>LIMIT 10 OFFSET 20\<close>.
\<close>

theorem limit_offset_cases:
  "LimitOffset MySQL limit offset =
     (if sint limit < 0 then Inl (Panic ''sqlx: the limit must be a positive integer'')
      else Inr (''LIMIT '' @ fmt_d (sint limit)
                @ (if offset = 0 then [] else '' OFFSET '' @ fmt_d (sint offset))))
   \<and> LimitOffset Sqlite3 limit offset =
     (if sint limit < 0 then Inl (Panic ''sqlx: the limit must be a positive integer'')
      else Inr (''LIMIT '' @ fmt_d (sint limit)
                @ (if offset = 0 then [] else '' OFFSET '' @ fmt_d (sint offset))))
   \<and> LimitOffset Postgres limit offset =
     (if sint limit < 0 then Inl (Panic ''sqlx: the limit must be a positive integer'')
      else Inr (''LIMIT '' @ fmt_d (sint limit)
                @ (if offset = 0 then [] else '' OFFSET '' @ fmt_d (sint offset))))
   \<and> LimitOffset MySQL 10 0 = Inr ''LIMIT 10''
   \<and> LimitOffset MySQL 10 20 = Inr ''LIMIT 10 OFFSET 20''
   \<and> LimitOffset Sqlite3 10 0 = Inr ''LIMIT 10''
   \<and> LimitOffset Sqlite3 10 20 = Inr ''LIMIT 10 OFFSET 20''
   \<and> LimitOffset Postgres 10 0 = Inr ''LIMIT 10''
   \<and> LimitOffset Postgres 10 20 = Inr ''LIMIT 10 OFFSET 20''"
  by (simp add: MySQL_def Postgres_def Sqlite3_def as_Dialect_def dialect_LimitOffset_def name_defs)
    (simp add: fmt_d_def digits.simps)

section \<open>Strings: searching, splitting and joining\<close>

lemma IndexByte_neg_iff: "IndexByte s c < 0 \<longleftrightarrow> c \<notin> set s"
  by (induction s) (auto simp: Let_def)

lemma IndexByte_nonneg_iff: "0 \<le> IndexByte s c \<longleftrightarrow> c \<in> set s"
  using IndexByte_neg_iff [of s c] by linarith

lemma IndexByte_ge: "- 1 \<le> IndexByte s c"
  by (induction s) (auto simp: Let_def)

lemma IndexByte_gt_iff: "- 1 < IndexByte s c \<longleftrightarrow> c \<in> set s"
  using IndexByte_neg_iff [of s c] IndexByte_ge [of s c] by linarith

lemma IndexByte_ne_iff: "IndexByte s c \<noteq> - 1 \<longleftrightarrow> c \<in> set s"
  using IndexByte_neg_iff [of s c] IndexByte_ge [of s c] by linarith

lemma Split_nonempty: "Split s c \<noteq> []"
  by (induction s) (auto split: list.splits)

lemma Split_pieces: "w \<in> set (Split s c) \<Longrightarrow> c \<notin> set w"
  by (induction s arbitrary: w) (auto split: list.splits if_splits)

lemma Join_Cons: "ws \<noteq> [] \<Longrightarrow> Join (w # ws) sep = w @ sep @ Join ws sep"
  by (cases ws) simp_all

lemma Join_Split: "Join (Split s c) [c] = s"
proof (induction s)
  case Nil
  show ?case by simp
next
  case (Cons x xs)
  show ?case
  proof (cases "x = c")
    case True
    with Cons show ?thesis by (simp add: Join_Cons Split_nonempty)
  next
    case False
    with Cons show ?thesis
      by (cases "Split xs c") (auto simp: Split_nonempty, (case_tac list; simp))
  qed
qed

lemma Split_no_sep: "c \<notin> set s \<Longrightarrow> Split s c = [s]"
  by (induction s) auto

lemma Split_append_sep: "c \<notin> set a \<Longrightarrow> Split (a @ c # b) c = a # Split b c"
  by (induction a) auto

lemma Split_Join: "ws \<noteq> [] \<Longrightarrow> \<forall>w\<in>set ws. c \<notin> set w \<Longrightarrow> Split (Join ws [c]) c = ws"
proof (induction ws)
  case Nil
  then show ?case by simp
next
  case (Cons w ws)
  show ?case
  proof (cases "ws = []")
    case True
    with Cons.prems show ?thesis by (simp add: Split_no_sep)
  next
    case False
    with Cons show ?thesis by (simp add: Join_Cons Split_append_sep)
  qed
qed

lemma length_Split: "c \<in> set s \<Longrightarrow> 2 \<le> length (Split s c)"
proof (induction s)
  case Nil
  then show ?case by simp
next
  case (Cons x xs)
  then show ?case
    using Split_nonempty [of xs c] by (cases "Split xs c") (auto split: list.splits)
qed

lemma set_Join: "set (Join ws sep) \<subseteq> \<Union>(set ` set ws) \<union> set sep"
  by (induction ws sep rule: Join.induct) auto

lemma set_Join_mem: "w \<in> set ws \<Longrightarrow> c \<in> set w \<Longrightarrow> c \<in> set (Join ws sep)"
  by (induction ws sep rule: Join.induct) auto

lemma sep_in_Join: "2 \<le> length ws \<Longrightarrow> set sep \<subseteq> set (Join ws sep)"
  by (cases ws; cases "tl ws") auto

section \<open>Quoting under the built-in dialects\<close>

lemma isQuoted_builtin:
  "builtin d \<Longrightarrow> dialect_isQuoted d s = Inr (quote_char d \<in> set s)"
  by (auto simp: builtin_def dialect_isQuoted_def quote_char_def IndexByte_nonneg_iff name_defs)

lemma raw_quote_builtin:
  "builtin d \<Longrightarrow> dialect__quote d s = Inr (quote_char d # s @ [quote_char d])"
  by (auto simp: builtin_def dialect__quote_def quote_char_def name_defs)

lemma quote_keeps_quoted:
  "builtin d \<Longrightarrow> quote_char d \<in> set s \<Longrightarrow> dialect_quote d s = Inr s"
  by (simp add: dialect_quote_def isQuoted_builtin)

lemma quote_total: "builtin d \<Longrightarrow> \<exists>q. dialect_quote d s = Inr q"
  by (simp add: dialect_quote_def isQuoted_builtin raw_quote_builtin Let_def)

lemma quote_result:
  assumes "builtin d" and "dialect_quote d s = Inr q"
  shows "q = s \<or> (quote_char d \<in> set q \<and> set q \<subseteq> set s \<union> {quote_char d, CHR ''('', CHR '')''})"
proof (cases "q = s")
  case True
  then show ?thesis by simp
next
  case False
  let ?i = "IndexByte s (CHR ''('')"
  let ?s' = "drop (nat (?i + 1)) s"
  let ?i2 = "IndexByte ?s' (CHR '')'')"
  from assms False consider
      (plain) "q = quote_char d # s @ [quote_char d]"
    | (call) "q = take (nat ?i) s @ ''('' @ (quote_char d # take (nat ?i2) ?s' @ [quote_char d])
                @ '')'' @ drop (nat (?i2 + 1)) ?s'"
    by (auto simp: dialect_quote_def isQuoted_builtin raw_quote_builtin Let_def slice_from_def
        slice_to_def split: if_splits)
  then show ?thesis
  proof cases
    case plain
    then show ?thesis by auto
  next
    case call
    have "set (take (nat ?i) s) \<subseteq> set s" by (rule set_take_subset)
    moreover have "set (take (nat ?i2) ?s') \<subseteq> set s"
      by (meson set_take_subset set_drop_subset subset_trans)
    moreover have "set (drop (nat (?i2 + 1)) ?s') \<subseteq> set s"
      by (meson set_drop_subset subset_trans)
    ultimately show ?thesis
      by (subst call, subst call) auto
  qed
qed

lemma quote_fixed:
  assumes "builtin d" and "dialect_quote d s = Inr q"
  shows "dialect_quote d q = Inr q"
  using quote_result [OF assms] assms quote_keeps_quoted [of d q] by auto

lemma quote_chars:
  assumes "builtin d" and "dialect_quote d s = Inr q"
  shows "set q \<subseteq> set s \<union> {quote_char d, CHR ''('', CHR '')''}"
  using quote_result [OF assms] by auto

lemma quote_char_not_sep: "quote_char d \<noteq> CHR ''.''" "quote_char d \<noteq> CHR '' ''"
  by (simp_all add: quote_char_def)

lemma quote_each_list_all2:
  "quote_each d vs = Inr qs \<longleftrightarrow> list_all2 (\<lambda>v q. dialect_quote d v = Inr q) vs qs"
proof (induction vs arbitrary: qs)
  case Nil
  show ?case by auto
next
  case (Cons v vs)
  show ?case
    by (cases qs) (auto simp: bindE_eq_Inr Cons.IH)
qed

lemma quote_each_total: "builtin d \<Longrightarrow> \<exists>qs. quote_each d vs = Inr qs"
proof (induction vs)
  case Nil
  show ?case by simp
next
  case (Cons v vs)
  then obtain qs where "quote_each d vs = Inr qs" by blast
  moreover obtain q where "dialect_quote d v = Inr q" using quote_total [OF Cons.prems] by blast
  ultimately show ?case by simp
qed

lemma quote_each_fixed:
  assumes "builtin d" and "quote_each d vs = Inr qs"
  shows "quote_each d qs = Inr qs"
proof -
  from assms(2) have "list_all2 (\<lambda>v q. dialect_quote d v = Inr q) vs qs"
    by (simp add: quote_each_list_all2)
  then have "list_all2 (\<lambda>v q. dialect_quote d v = Inr q) qs qs"
    by (induction rule: list_all2_induct) (auto intro: quote_fixed [OF assms(1)])
  then show ?thesis by (simp add: quote_each_list_all2)
qed

lemma quote_each_chars:
  assumes "builtin d" and "quote_each d vs = Inr qs" and "q \<in> set qs" and "c \<in> set q"
  shows "c \<in> \<Union>(set ` set vs) \<or> c \<in> {quote_char d, CHR ''('', CHR '')''}"
proof -
  from assms(2) have "list_all2 (\<lambda>v q. dialect_quote d v = Inr q) vs qs"
    by (simp add: quote_each_list_all2)
  moreover from assms(3) obtain i where "i < length qs" and "q = qs ! i"
    by (auto simp: in_set_conv_nth)
  ultimately have "vs ! i \<in> set vs" and "dialect_quote d (vs ! i) = Inr q"
    by (auto simp: list_all2_conv_all_nth)
  then obtain v where "v \<in> set vs" and "dialect_quote d v = Inr q" by blast
  with quote_chars [OF assms(1), of v q] assms(4) show ?thesis by auto
qed

lemma Quote_idempotent:
  assumes b: "builtin d" and q: "dialect_Quote d s = Inr q"
  shows "dialect_Quote d q = Inr q"
proof (cases "CHR '' '' \<in> set s")
  case True
  with q have "q = s" by (simp add: dialect_Quote_def IndexByte_nonneg_iff)
  with q show ?thesis by simp
next
  case nospace: False
  show ?thesis
  proof (cases "CHR ''.'' \<in> set s")
    case False
    with nospace q have dq: "dialect_quote d s = Inr q"
      by (simp add: dialect_Quote_def IndexByte_nonneg_iff IndexByte_neg_iff)
    from quote_chars [OF b dq] nospace False
    have "CHR '' '' \<notin> set q" "CHR ''.'' \<notin> set q"
      using quote_char_not_sep [of d] by auto
    then show ?thesis
      using quote_fixed [OF b dq]
      by (simp add: dialect_Quote_def IndexByte_nonneg_iff IndexByte_neg_iff)
  next
    case True
    with nospace q obtain qs where qs: "quote_each d (Split s (CHR ''.'')) = Inr qs"
      and qj: "q = Join qs ''.''"
      by (auto simp: dialect_Quote_def IndexByte_nonneg_iff IndexByte_neg_iff bindE_eq_Inr)
    from qs have len: "length qs = length (Split s (CHR ''.''))"
      by (simp add: quote_each_list_all2 list_all2_lengthD)
    with length_Split [OF True] have len2: "2 \<le> length qs" by simp
    have pieces: "\<forall>w\<in>set qs. CHR ''.'' \<notin> set w \<and> CHR '' '' \<notin> set w"
    proof
      fix w assume w: "w \<in> set qs"
      have src: "\<And>c. c \<in> \<Union>(set ` set (Split s (CHR ''.''))) \<Longrightarrow> c \<noteq> CHR ''.'' \<and> c \<in> set s"
      proof -
        fix c assume "c \<in> \<Union>(set ` set (Split s (CHR ''.'')))"
        then obtain v where v: "v \<in> set (Split s (CHR ''.''))" "c \<in> set v" by auto
        from v Split_pieces [of v s "CHR ''.''"] have "c \<noteq> CHR ''.''" by auto
        moreover have "set (Join (Split s (CHR ''.'')) ''.'') = set s" by (simp add: Join_Split)
        then have "c \<in> set s"
          using v set_Join_mem by blast
        ultimately show "c \<noteq> CHR ''.'' \<and> c \<in> set s" by simp
      qed
      show "CHR ''.'' \<notin> set w \<and> CHR '' '' \<notin> set w"
        using quote_each_chars [OF b qs w] src nospace quote_char_not_sep [of d] by fastforce
    qed
    have dot: "CHR ''.'' \<in> set q" using sep_in_Join [OF len2, of "''.''"] qj by auto
    have nosp: "CHR '' '' \<notin> set q"
      using set_Join [of qs "''.''"] pieces qj by auto
    have "qs \<noteq> []" using len2 by auto
    then have "Split q (CHR ''.'') = qs"
      using Split_Join [of qs "CHR ''.''"] pieces qj by auto
    then show ?thesis
      using dot nosp quote_each_fixed [OF b qs] qj
      by (simp add: dialect_Quote_def IndexByte_nonneg_iff IndexByte_neg_iff)
  qed
qed

lemma quote_plain:
  "builtin d \<Longrightarrow> v \<noteq> ''*'' \<Longrightarrow> quote_char d \<notin> set v \<Longrightarrow> CHR ''('' \<notin> set v \<Longrightarrow>
   dialect_quote d v = Inr (quote_char d # v @ [quote_char d])"
  by (simp add: dialect_quote_def isQuoted_builtin raw_quote_builtin Let_def IndexByte_gt_iff)

lemma quote_each_pieces:
  assumes "builtin d"
  shows "\<exists>qs. quote_each d vs = Inr qs \<and>
    list_all2 (\<lambda>v q. dialect_quote d v = Inr q \<and>
       (v \<noteq> ''*'' \<and> quote_char d \<notin> set v \<and> CHR ''('' \<notin> set v \<longrightarrow> q = quote_char d # v @ [quote_char d])) vs qs"
proof (induction vs)
  case Nil
  show ?case by simp
next
  case (Cons v vs)
  then obtain qs where qs: "quote_each d vs = Inr qs"
    "list_all2 (\<lambda>v q. dialect_quote d v = Inr q \<and>
       (v \<noteq> ''*'' \<and> quote_char d \<notin> set v \<and> CHR ''('' \<notin> set v \<longrightarrow> q = quote_char d # v @ [quote_char d])) vs qs"
    by blast
  obtain q where q: "dialect_quote d v = Inr q" using quote_total [OF assms] by blast
  have "v \<noteq> ''*'' \<and> quote_char d \<notin> set v \<and> CHR ''('' \<notin> set v \<longrightarrow> q = quote_char d # v @ [quote_char d]"
    using quote_plain [OF assms, of v] q by auto
  with q qs show ?case by auto
qed

text \<open>
  C7. For a built-in dialect and an identifier with a dot and no space, \<^verbatim>\<open>Quote\<close>
  splits the identifier at its dots (the pieces joined by dots give it back), quotes
  each piece on its own with \<^verbatim>\<open>quote\<close>, which wraps a piece that is not \<^verbatim>\<open>*\<close>
  and has neither the quote character nor an opening parenthesis in the quote
  character, and joins the quoted pieces with dots. So \<^verbatim>\<open>Quote("t.c")\<close> is
  \<^verbatim>\<open>`t`.`c`\<close> under mysql and \<^verbatim>\<open>"t"."c"\<close> under postgres and sqlite3.
\<close>

theorem quote_qualified:
  "(builtin d \<and> CHR '' '' \<notin> set s \<and> CHR ''.'' \<in> set s \<longrightarrow>
      Join (Split s (CHR ''.'')) ''.'' = s
      \<and> (\<exists>qs. Quote (as_Dialect d) s = Inr (Join qs ''.'')
            \<and> list_all2
                 (\<lambda>v q. dialect_quote d v = Inr q
                    \<and> (v \<noteq> ''*'' \<and> quote_char d \<notin> set v \<and> CHR ''('' \<notin> set v
                          \<longrightarrow> q = quote_char d # v @ [quote_char d]))
                 (Split s (CHR ''.'')) qs))
   \<and> Quote MySQL ''t.c'' = Inr ''`t`.`c`''
   \<and> Quote Postgres ''t.c'' = Inr ''\"t\".\"c\"''
   \<and> Quote Sqlite3 ''t.c'' = Inr ''\"t\".\"c\"''"
proof -
  have general: "Join (Split s (CHR ''.'')) ''.'' = s
      \<and> (\<exists>qs. Quote (as_Dialect d) s = Inr (Join qs ''.'')
            \<and> list_all2
                 (\<lambda>v q. dialect_quote d v = Inr q
                    \<and> (v \<noteq> ''*'' \<and> quote_char d \<notin> set v \<and> CHR ''('' \<notin> set v
                          \<longrightarrow> q = quote_char d # v @ [quote_char d]))
                 (Split s (CHR ''.'')) qs)"
    if b: "builtin d" and sp: "CHR '' '' \<notin> set s" and dot: "CHR ''.'' \<in> set s"
  proof -
    from quote_each_pieces [OF b, of "Split s (CHR ''.'')"] obtain qs where
      qs: "quote_each d (Split s (CHR ''.'')) = Inr qs" and
      all: "list_all2
                 (\<lambda>v q. dialect_quote d v = Inr q
                    \<and> (v \<noteq> ''*'' \<and> quote_char d \<notin> set v \<and> CHR ''('' \<notin> set v
                          \<longrightarrow> q = quote_char d # v @ [quote_char d]))
                 (Split s (CHR ''.'')) qs"
      by blast
    have "Quote (as_Dialect d) s = Inr (Join qs ''.'')"
      using sp dot qs by (simp add: as_Dialect_def dialect_Quote_def IndexByte_nonneg_iff IndexByte_neg_iff)
    with all show ?thesis using Join_Split [of s "CHR ''.''"] by auto
  qed
  have examples: "Quote MySQL ''t.c'' = Inr ''`t`.`c`''"
    "Quote Postgres ''t.c'' = Inr ''\"t\".\"c\"''"
    "Quote Sqlite3 ''t.c'' = Inr ''\"t\".\"c\"''"
    by (simp_all add: builtin_defs)
  from general examples show ?thesis by blast
qed

theorem quote_qualified_witness:
  "builtin (dialect mysqlDialect) \<and> CHR '' '' \<notin> set ''t.c'' \<and> CHR ''.'' \<in> set ''t.c''
   \<and> Join (Split ''t.c'' (CHR ''.'')) ''.'' = ''t.c''
   \<and> (\<exists>qs. Quote (as_Dialect (dialect mysqlDialect)) ''t.c'' = Inr (Join qs ''.'')
          \<and> list_all2
               (\<lambda>v q. dialect_quote (dialect mysqlDialect) v = Inr q
                  \<and> (v \<noteq> ''*'' \<and> quote_char (dialect mysqlDialect) \<notin> set v \<and> CHR ''('' \<notin> set v
                        \<longrightarrow> q = quote_char (dialect mysqlDialect) # v @ [quote_char (dialect mysqlDialect)]))
               (Split ''t.c'' (CHR ''.'')) qs)"
proof -
  have h: "builtin (dialect mysqlDialect) \<and> CHR '' '' \<notin> set ''t.c'' \<and> CHR ''.'' \<in> set ''t.c''"
    by (simp add: builtin_def)
  with quote_qualified [of "dialect mysqlDialect" "''t.c''"] show ?thesis by blast
qed

lemma Quote_keeps_quoted_pieces:
  assumes b: "builtin d" and all: "\<forall>w\<in>set (Split s (CHR ''.'')). quote_char d \<in> set w"
  shows "dialect_Quote d s = Inr s"
proof -
  have "quote_each d ws = Inr ws" if "\<forall>w\<in>set ws. quote_char d \<in> set w" for ws
    using that by (induction ws) (simp_all add: quote_keeps_quoted [OF b])
  with all have each: "quote_each d (Split s (CHR ''.'')) = Inr (Split s (CHR ''.''))" by blast
  show ?thesis
  proof (cases "CHR ''.'' \<in> set s")
    case True
    with each show ?thesis
      by (simp add: dialect_Quote_def IndexByte_nonneg_iff IndexByte_neg_iff Join_Split)
  next
    case False
    with all have "quote_char d \<in> set s" by (simp add: Split_no_sep)
    with False show ?thesis
      by (simp add: dialect_Quote_def IndexByte_nonneg_iff IndexByte_neg_iff quote_keeps_quoted [OF b])
  qed
qed

text \<open>
  C8. An identifier that starts and ends with the quote character is not always
  returned unchanged: under mysql \<^verbatim>\<open>Quote\<close> turns \<^verbatim>\<open>`a.b.c`\<close> into
  \<^verbatim>\<open>`a.`b`.c`\<close>. \<^verbatim>\<open>Quote\<close> splits at the dots before \<^verbatim>\<open>quote\<close> looks for the
  quote character, so the middle piece \<^verbatim>\<open>b\<close>, which has none, is quoted. Without
  an inner dot, or with one only, the identifier is returned unchanged, under each of
  the three dialects.
\<close>

theorem quote_wrapped_inner_dots:
  "Quote MySQL ''`a.b.c`'' = Inr ''`a.`b`.c`''
   \<and> Quote MySQL ''`a.b.c`'' \<noteq> Inr ''`a.b.c`''
   \<and> Quote MySQL ''`x`'' = Inr ''`x`''
   \<and> Quote MySQL ''`t.c`'' = Inr ''`t.c`''
   \<and> Quote Postgres ''\"x\"'' = Inr ''\"x\"''
   \<and> Quote Sqlite3 ''\"x\"'' = Inr ''\"x\"''"
  by (simp add: builtin_defs)

section \<open>Build and String read the builder\<close>

lemma bindS_compute: "bindS (compute m) k w = (case m of Inl e \<Rightarrow> (Inl e, w) | Inr a \<Rightarrow> k a w)"
  by (cases m) (simp_all add: bindS_def compute_def)

lemma bindS_read_field: "bindS (read_field f) k w = k (f (receiver w)) w"
  by (simp add: bindS_def read_field_def)

lemma bindS_dialect:
  "bindS (case d0 of None \<Rightarrow> read_DefaultDialect | Some d' \<Rightarrow> ret d') k w
   = k (case d0 of None \<Rightarrow> var_DefaultDialect w | Some d' \<Rightarrow> d') w"
  by (cases d0) (simp_all add: bindS_def read_DefaultDialect_def ret_def)

lemma bindS_getBuffer:
  assumes "pool_ok w"
  shows "bindS getBuffer k w = k [] (w\<lparr>bufpool := tl (bufpool w)\<rparr>)"
proof (cases "bufpool w")
  case Nil
  then have eq: "w\<lparr>bufpool := []\<rparr> = w" by (cases w) simp
  show ?thesis by (simp add: bindS_def getBuffer_def Nil eq)
next
  case (Cons buf rest)
  with assms show ?thesis by (simp add: bindS_def getBuffer_def pool_ok_def)
qed

lemma bindS_putBuffer: "bindS (putBuffer b) k w = k () (w\<lparr>bufpool := [] # bufpool w\<rparr>)"
  by (simp add: bindS_def putBuffer_def)

lemma fst_sum_case:
  "fst (case m of Inl e \<Rightarrow> (Inl e, w) | Inr a \<Rightarrow> k a) = bindE m (\<lambda>a. fst (k a))"
  by (cases m) simp_all

lemmas step_simps = bindS_compute bindS_read_field bindS_dialect bindS_putBuffer fst_sum_case

lemma insert_steps_result:
  assumes "pool_ok w"
  shows "fst (InsertBuilder_Build_steps w)
    = InsertBuilder_Build ((receiver w)\<lparr>ins_dialect :=
         Some (case ins_dialect (receiver w) of None \<Rightarrow> var_DefaultDialect w | Some d' \<Rightarrow> d')\<rparr>)"
  using assms
  by (simp add: InsertBuilder_Build_steps_def InsertBuilder_Build_def Let_def step_simps
      bindS_getBuffer dialect_or_default_def ret_def panic_def case_prod_unfold
      cong: if_cong)

lemma case_dialect_pool:
  "(case d0 of None \<Rightarrow> var_DefaultDialect (w\<lparr>bufpool := p\<rparr>) | Some d' \<Rightarrow> d')
   = (case d0 of None \<Rightarrow> var_DefaultDialect w | Some d' \<Rightarrow> d')"
  by (cases d0) simp_all

lemma select_steps_result:
  assumes "pool_ok w"
  shows "fst (SelectBuilder_Build_steps w)
    = SelectBuilder_Build ((receiver w)\<lparr>sel_dialect :=
         Some (case sel_dialect (receiver w) of None \<Rightarrow> var_DefaultDialect w | Some d' \<Rightarrow> d')\<rparr>)"
  using assms
  by (simp add: SelectBuilder_Build_steps_def SelectBuilder_Build_def Let_def step_simps
      bindS_getBuffer dialect_or_default_def ret_def panic_def case_prod_unfold case_dialect_pool
      cong: if_cong)

lemma update_steps_result:
  assumes "pool_ok w"
  shows "fst (UpdateBuilder_Build_steps w)
    = UpdateBuilder_Build ((receiver w)\<lparr>upd_dialect :=
         Some (case upd_dialect (receiver w) of None \<Rightarrow> var_DefaultDialect w | Some d' \<Rightarrow> d')\<rparr>)"
  using assms
  by (simp add: UpdateBuilder_Build_steps_def UpdateBuilder_Build_def Let_def step_simps
      bindS_getBuffer dialect_or_default_def ret_def panic_def case_prod_unfold
      cong: if_cong)

lemma delete_steps_result:
  assumes "pool_ok w"
  shows "fst (DeleteBuilder_Build_steps w)
    = DeleteBuilder_Build ((receiver w)\<lparr>del_dialect :=
         Some (case del_dialect (receiver w) of None \<Rightarrow> var_DefaultDialect w | Some d' \<Rightarrow> d')\<rparr>)"
  using assms
  by (simp add: DeleteBuilder_Build_steps_def DeleteBuilder_Build_def Let_def step_simps
      bindS_getBuffer dialect_or_default_def ret_def panic_def case_prod_unfold
      cong: if_cong)

lemma preserves_ret: "preserves (ret a)"
  by (simp add: preserves_def ret_def)

lemma preserves_panic: "preserves (panic e)"
  by (simp add: preserves_def panic_def)

lemma preserves_compute: "preserves (compute m)"
  by (simp add: preserves_def compute_def)

lemma preserves_read_field: "preserves (read_field f)"
  by (simp add: preserves_def read_field_def)

lemma preserves_read_DefaultDialect: "preserves read_DefaultDialect"
  by (simp add: preserves_def read_DefaultDialect_def)

lemma preserves_getBuffer: "preserves getBuffer"
  by (auto simp: preserves_def getBuffer_def pool_ok_def split: list.splits)

lemma preserves_putBuffer: "preserves (putBuffer buf)"
  by (simp add: preserves_def putBuffer_def pool_ok_def)

lemma preserves_bindS:
  assumes "preserves m" and "\<And>a. preserves (k a)"
  shows "preserves (bindS m k)"
  unfolding preserves_def
proof (intro allI impI)
  fix w :: "'a world"
  assume ok: "pool_ok w"
  obtain r w1 where mw: "m w = (r, w1)" by (cases "m w")
  from assms(1) ok mw have 1: "receiver w1 = receiver w" "var_DefaultDialect w1 = var_DefaultDialect w"
    "pool_ok w1"
    by (auto simp: preserves_def dest!: spec [of _ w])
  show "receiver (snd (bindS m k w)) = receiver w \<and>
        var_DefaultDialect (snd (bindS m k w)) = var_DefaultDialect w \<and>
        pool_ok (snd (bindS m k w))"
  proof (cases r)
    case (Inl e)
    with mw 1 show ?thesis by (simp add: bindS_def)
  next
    case (Inr a)
    from assms(2) [of a] 1(3) have "receiver (snd (k a w1)) = receiver w1 \<and>
        var_DefaultDialect (snd (k a w1)) = var_DefaultDialect w1 \<and> pool_ok (snd (k a w1))"
      by (simp add: preserves_def)
    with Inr mw 1 show ?thesis by (simp add: bindS_def)
  qed
qed

lemma preserves_if: "preserves a \<Longrightarrow> preserves b \<Longrightarrow> preserves (if c then a else b)"
  by simp

lemma preserves_case_option:
  "preserves a \<Longrightarrow> (\<And>x. preserves (f x)) \<Longrightarrow> preserves (case x0 of None \<Rightarrow> a | Some x \<Rightarrow> f x)"
  by (cases x0) simp_all

lemma preserves_case_prod: "(\<And>a b. preserves (f a b)) \<Longrightarrow> preserves (case p of (a, b) \<Rightarrow> f a b)"
  by (cases p) simp

lemmas preserves_steps = preserves_bindS preserves_if preserves_case_option preserves_case_prod
  preserves_ret preserves_panic preserves_compute preserves_read_field
  preserves_read_DefaultDialect preserves_getBuffer preserves_putBuffer

lemma preserves_insert_Build: "preserves InsertBuilder_Build_steps"
  unfolding InsertBuilder_Build_steps_def Let_def by (intro preserves_steps)

lemma preserves_select_Build: "preserves SelectBuilder_Build_steps"
  unfolding SelectBuilder_Build_steps_def Let_def by (intro preserves_steps)

lemma preserves_update_Build: "preserves UpdateBuilder_Build_steps"
  unfolding UpdateBuilder_Build_steps_def Let_def by (intro preserves_steps)

lemma preserves_delete_Build: "preserves DeleteBuilder_Build_steps"
  unfolding DeleteBuilder_Build_steps_def Let_def by (intro preserves_steps)

lemma preserves_insert_String: "preserves InsertBuilder_String_steps"
  unfolding InsertBuilder_String_steps_def by (intro preserves_steps preserves_insert_Build)

lemma preserves_select_String: "preserves SelectBuilder_String_steps"
  unfolding SelectBuilder_String_steps_def by (intro preserves_steps preserves_select_Build)

lemma preserves_update_String: "preserves UpdateBuilder_String_steps"
  unfolding UpdateBuilder_String_steps_def by (intro preserves_steps preserves_update_Build)

lemma preserves_delete_String: "preserves DeleteBuilder_String_steps"
  unfolding DeleteBuilder_String_steps_def by (intro preserves_steps preserves_delete_Build)

lemma String_result:
  "fst (bindS m (\<lambda>(sql, _). ret sql) w) = map_sum id fst (fst (m w))"
  by (cases "m w"; cases "fst (m w)") (auto simp: bindS_def ret_def)

lemma preservesD:
  "preserves m \<Longrightarrow> pool_ok w \<Longrightarrow>
   receiver (snd (m w)) = receiver w \<and> var_DefaultDialect (snd (m w)) = var_DefaultDialect w
   \<and> pool_ok (snd (m w))"
  by (simp add: preserves_def)

text \<open>
  Two contrasts. A method that assigns to a field of the receiver does not preserve
  the state. And were a used buffer at rest in the pool, the first call would return
  its content before the statement and the second call would not.
\<close>

lemma SetDialect_assigns:
  "\<not> preserves (InsertBuilder_SetDialect_steps (Some Postgres) :: ('v InsertBuilder, unit) call)"
proof
  assume p: "preserves (InsertBuilder_SetDialect_steps (Some Postgres) :: ('v InsertBuilder, unit) call)"
  let ?w = "\<lparr>receiver = Insert :: 'v InsertBuilder, var_DefaultDialect = MySQL, bufpool = []\<rparr>"
  have "pool_ok ?w" by (simp add: pool_ok_def)
  with p have "receiver (snd (InsertBuilder_SetDialect_steps (Some Postgres) ?w)) = receiver ?w"
    unfolding preserves_def by blast
  then have "Name Postgres = Name MySQL"
    by (simp add: InsertBuilder_SetDialect_steps_def assign_receiver_def InsertBuilder_SetDialect_def
        Insert_def NewInsertBuilder_def DefaultDialect_def)
  then show False by (simp add: builtin_defs)
qed

lemma Build_from_used_buffer:
  "fst (InsertBuilder_Build_steps
        \<lparr>receiver = (Columns (Into Insert ''t'') [''c''])\<lparr>ins_values := [[GoInt 1]]\<rparr>,
         var_DefaultDialect = MySQL, bufpool = [''x'']\<rparr>)
     = Inr (''xINSERT INTO `t` (`c`) VALUES (?)'', [GoInt 1])
   \<and> fst (InsertBuilder_Build_steps (snd (InsertBuilder_Build_steps
        \<lparr>receiver = (Columns (Into Insert ''t'') [''c''])\<lparr>ins_values := [[GoInt 1]]\<rparr>,
         var_DefaultDialect = MySQL, bufpool = [''x'']\<rparr>)))
     = Inr (''INSERT INTO `t` (`c`) VALUES (?)'', [GoInt 1])"
  by (simp add: InsertBuilder_Build_steps_def bindS_def read_field_def compute_def ret_def
      getBuffer_def putBuffer_def read_DefaultDialect_def
      Columns_def Into_def Insert_def NewInsertBuilder_def
      builtin_defs accumulator_defs addValues_def Let_def)

lemma second_call:
  assumes res: "\<And>w. pool_ok w \<Longrightarrow> fst (m w) = f (receiver w) (var_DefaultDialect w)"
    and pres: "preserves m" and ok: "pool_ok w"
  shows "fst (m (snd (m w))) = fst (m w)"
  using preservesD [OF pres ok] res [of w] res [of "snd (m w)"] ok by simp

text \<open>
  C9. A call of \<^verbatim>\<open>Build\<close> is run on the state of the package, from a pool whose buffers
  are empty (as \<^verbatim>\<open>putBuffer\<close> leaves them). For each of the four builders, whatever its
  configuration: the call leaves every field of the receiver as it was, it leaves
  \<^verbatim>\<open>DefaultDialect\<close> as it was and a pool of empty buffers; a second call, run on the
  state the first one leaves, returns what the first returned (the same pair, or the
  same panic); \<^verbatim>\<open>String\<close> returns the text of the pair that \<^verbatim>\<open>Build\<close> returns, or
  panics as it does, and leaves the receiver as it was; and what \<^verbatim>\<open>Build\<close> returns is
  the value of the function of the builder alone, with the current \<^verbatim>\<open>DefaultDialect\<close>
  in the place of a \<^verbatim>\<open>nil\<close> dialect. The interception hook is a function of the model,
  hence pure.
\<close>

theorem build_reads_builder:
  "(pool_ok wi \<longrightarrow>
      receiver (snd (InsertBuilder_Build_steps wi)) = receiver wi
      \<and> var_DefaultDialect (snd (InsertBuilder_Build_steps wi)) = var_DefaultDialect wi
      \<and> pool_ok (snd (InsertBuilder_Build_steps wi))
      \<and> fst (InsertBuilder_Build_steps (snd (InsertBuilder_Build_steps wi)))
          = fst (InsertBuilder_Build_steps wi)
      \<and> fst (InsertBuilder_String_steps wi) = map_sum id fst (fst (InsertBuilder_Build_steps wi))
      \<and> receiver (snd (InsertBuilder_String_steps wi)) = receiver wi
      \<and> fst (InsertBuilder_Build_steps wi)
          = InsertBuilder_Build ((receiver wi)\<lparr>ins_dialect :=
              Some (case ins_dialect (receiver wi) of
                      None \<Rightarrow> var_DefaultDialect wi | Some d' \<Rightarrow> d')\<rparr>))
   \<and> (pool_ok ws \<longrightarrow>
      receiver (snd (SelectBuilder_Build_steps ws)) = receiver ws
      \<and> var_DefaultDialect (snd (SelectBuilder_Build_steps ws)) = var_DefaultDialect ws
      \<and> pool_ok (snd (SelectBuilder_Build_steps ws))
      \<and> fst (SelectBuilder_Build_steps (snd (SelectBuilder_Build_steps ws)))
          = fst (SelectBuilder_Build_steps ws)
      \<and> fst (SelectBuilder_String_steps ws) = map_sum id fst (fst (SelectBuilder_Build_steps ws))
      \<and> receiver (snd (SelectBuilder_String_steps ws)) = receiver ws
      \<and> fst (SelectBuilder_Build_steps ws)
          = SelectBuilder_Build ((receiver ws)\<lparr>sel_dialect :=
              Some (case sel_dialect (receiver ws) of
                      None \<Rightarrow> var_DefaultDialect ws | Some d' \<Rightarrow> d')\<rparr>))
   \<and> (pool_ok wu \<longrightarrow>
      receiver (snd (UpdateBuilder_Build_steps wu)) = receiver wu
      \<and> var_DefaultDialect (snd (UpdateBuilder_Build_steps wu)) = var_DefaultDialect wu
      \<and> pool_ok (snd (UpdateBuilder_Build_steps wu))
      \<and> fst (UpdateBuilder_Build_steps (snd (UpdateBuilder_Build_steps wu)))
          = fst (UpdateBuilder_Build_steps wu)
      \<and> fst (UpdateBuilder_String_steps wu) = map_sum id fst (fst (UpdateBuilder_Build_steps wu))
      \<and> receiver (snd (UpdateBuilder_String_steps wu)) = receiver wu
      \<and> fst (UpdateBuilder_Build_steps wu)
          = UpdateBuilder_Build ((receiver wu)\<lparr>upd_dialect :=
              Some (case upd_dialect (receiver wu) of
                      None \<Rightarrow> var_DefaultDialect wu | Some d' \<Rightarrow> d')\<rparr>))
   \<and> (pool_ok wd \<longrightarrow>
      receiver (snd (DeleteBuilder_Build_steps wd)) = receiver wd
      \<and> var_DefaultDialect (snd (DeleteBuilder_Build_steps wd)) = var_DefaultDialect wd
      \<and> pool_ok (snd (DeleteBuilder_Build_steps wd))
      \<and> fst (DeleteBuilder_Build_steps (snd (DeleteBuilder_Build_steps wd)))
          = fst (DeleteBuilder_Build_steps wd)
      \<and> fst (DeleteBuilder_String_steps wd) = map_sum id fst (fst (DeleteBuilder_Build_steps wd))
      \<and> receiver (snd (DeleteBuilder_String_steps wd)) = receiver wd
      \<and> fst (DeleteBuilder_Build_steps wd)
          = DeleteBuilder_Build ((receiver wd)\<lparr>del_dialect :=
              Some (case del_dialect (receiver wd) of
                      None \<Rightarrow> var_DefaultDialect wd | Some d' \<Rightarrow> d')\<rparr>))"
proof (intro conjI impI)
  assume ok: "pool_ok wi"
  from preservesD [OF preserves_insert_Build ok]
  show "receiver (snd (InsertBuilder_Build_steps wi)) = receiver wi"
    and "var_DefaultDialect (snd (InsertBuilder_Build_steps wi)) = var_DefaultDialect wi"
    and "pool_ok (snd (InsertBuilder_Build_steps wi))"
    by simp_all
  show "fst (InsertBuilder_Build_steps (snd (InsertBuilder_Build_steps wi)))
          = fst (InsertBuilder_Build_steps wi)"
    by (rule second_call [OF insert_steps_result preserves_insert_Build ok])
  show "fst (InsertBuilder_String_steps wi) = map_sum id fst (fst (InsertBuilder_Build_steps wi))"
    unfolding InsertBuilder_String_steps_def by (rule String_result)
  from preservesD [OF preserves_insert_String ok]
  show "receiver (snd (InsertBuilder_String_steps wi)) = receiver wi" by simp
  show "fst (InsertBuilder_Build_steps wi)
          = InsertBuilder_Build ((receiver wi)\<lparr>ins_dialect :=
              Some (case ins_dialect (receiver wi) of
                      None \<Rightarrow> var_DefaultDialect wi | Some d' \<Rightarrow> d')\<rparr>)"
    by (rule insert_steps_result [OF ok])
next
  assume ok: "pool_ok ws"
  from preservesD [OF preserves_select_Build ok]
  show "receiver (snd (SelectBuilder_Build_steps ws)) = receiver ws"
    and "var_DefaultDialect (snd (SelectBuilder_Build_steps ws)) = var_DefaultDialect ws"
    and "pool_ok (snd (SelectBuilder_Build_steps ws))"
    by simp_all
  show "fst (SelectBuilder_Build_steps (snd (SelectBuilder_Build_steps ws)))
          = fst (SelectBuilder_Build_steps ws)"
    by (rule second_call [OF select_steps_result preserves_select_Build ok])
  show "fst (SelectBuilder_String_steps ws) = map_sum id fst (fst (SelectBuilder_Build_steps ws))"
    unfolding SelectBuilder_String_steps_def by (rule String_result)
  from preservesD [OF preserves_select_String ok]
  show "receiver (snd (SelectBuilder_String_steps ws)) = receiver ws" by simp
  show "fst (SelectBuilder_Build_steps ws)
          = SelectBuilder_Build ((receiver ws)\<lparr>sel_dialect :=
              Some (case sel_dialect (receiver ws) of
                      None \<Rightarrow> var_DefaultDialect ws | Some d' \<Rightarrow> d')\<rparr>)"
    by (rule select_steps_result [OF ok])
next
  assume ok: "pool_ok wu"
  from preservesD [OF preserves_update_Build ok]
  show "receiver (snd (UpdateBuilder_Build_steps wu)) = receiver wu"
    and "var_DefaultDialect (snd (UpdateBuilder_Build_steps wu)) = var_DefaultDialect wu"
    and "pool_ok (snd (UpdateBuilder_Build_steps wu))"
    by simp_all
  show "fst (UpdateBuilder_Build_steps (snd (UpdateBuilder_Build_steps wu)))
          = fst (UpdateBuilder_Build_steps wu)"
    by (rule second_call [OF update_steps_result preserves_update_Build ok])
  show "fst (UpdateBuilder_String_steps wu) = map_sum id fst (fst (UpdateBuilder_Build_steps wu))"
    unfolding UpdateBuilder_String_steps_def by (rule String_result)
  from preservesD [OF preserves_update_String ok]
  show "receiver (snd (UpdateBuilder_String_steps wu)) = receiver wu" by simp
  show "fst (UpdateBuilder_Build_steps wu)
          = UpdateBuilder_Build ((receiver wu)\<lparr>upd_dialect :=
              Some (case upd_dialect (receiver wu) of
                      None \<Rightarrow> var_DefaultDialect wu | Some d' \<Rightarrow> d')\<rparr>)"
    by (rule update_steps_result [OF ok])
next
  assume ok: "pool_ok wd"
  from preservesD [OF preserves_delete_Build ok]
  show "receiver (snd (DeleteBuilder_Build_steps wd)) = receiver wd"
    and "var_DefaultDialect (snd (DeleteBuilder_Build_steps wd)) = var_DefaultDialect wd"
    and "pool_ok (snd (DeleteBuilder_Build_steps wd))"
    by simp_all
  show "fst (DeleteBuilder_Build_steps (snd (DeleteBuilder_Build_steps wd)))
          = fst (DeleteBuilder_Build_steps wd)"
    by (rule second_call [OF delete_steps_result preserves_delete_Build ok])
  show "fst (DeleteBuilder_String_steps wd) = map_sum id fst (fst (DeleteBuilder_Build_steps wd))"
    unfolding DeleteBuilder_String_steps_def by (rule String_result)
  from preservesD [OF preserves_delete_String ok]
  show "receiver (snd (DeleteBuilder_String_steps wd)) = receiver wd" by simp
  show "fst (DeleteBuilder_Build_steps wd)
          = DeleteBuilder_Build ((receiver wd)\<lparr>del_dialect :=
              Some (case del_dialect (receiver wd) of
                      None \<Rightarrow> var_DefaultDialect wd | Some d' \<Rightarrow> d')\<rparr>)"
    by (rule delete_steps_result [OF ok])
qed

theorem build_reads_builder_witness:
  "pool_ok
     \<lparr>receiver = (Columns (Into Insert ''table'') [''c1''])
                   \<lparr>ins_dialect := None, ins_values := [[GoInt 1]]\<rparr>,
      var_DefaultDialect = Postgres, bufpool = [[]]\<rparr>
   \<and> fst (InsertBuilder_Build_steps
        \<lparr>receiver = (Columns (Into Insert ''table'') [''c1''])
                      \<lparr>ins_dialect := None, ins_values := [[GoInt 1]]\<rparr>,
         var_DefaultDialect = Postgres, bufpool = [[]]\<rparr>)
      = Inr (''INSERT INTO \"table\" (\"c1\") VALUES ($1)'', [GoInt 1])
   \<and> receiver (snd (InsertBuilder_Build_steps
        \<lparr>receiver = (Columns (Into Insert ''table'') [''c1''])
                      \<lparr>ins_dialect := None, ins_values := [[GoInt 1]]\<rparr>,
         var_DefaultDialect = Postgres, bufpool = [[]]\<rparr>))
      = (Columns (Into Insert ''table'') [''c1''])
          \<lparr>ins_dialect := None, ins_values := [[GoInt 1]]\<rparr>
   \<and> fst (InsertBuilder_Build_steps (snd (InsertBuilder_Build_steps
        \<lparr>receiver = (Columns (Into Insert ''table'') [''c1''])
                      \<lparr>ins_dialect := None, ins_values := [[GoInt 1]]\<rparr>,
         var_DefaultDialect = Postgres, bufpool = [[]]\<rparr>)))
      = Inr (''INSERT INTO \"table\" (\"c1\") VALUES ($1)'', [GoInt 1])
   \<and> fst (InsertBuilder_String_steps
        \<lparr>receiver = (Columns (Into Insert ''table'') [''c1''])
                      \<lparr>ins_dialect := None, ins_values := [[GoInt 1]]\<rparr>,
         var_DefaultDialect = Postgres, bufpool = [[]]\<rparr>)
      = Inr ''INSERT INTO \"table\" (\"c1\") VALUES ($1)''
   \<and> pool_ok
     \<lparr>receiver = From (NewSelectBuilder ''c1'' []) ''table'' [] :: val SelectBuilder,
      var_DefaultDialect = MySQL, bufpool = []\<rparr>
   \<and> fst (SelectBuilder_Build_steps
        \<lparr>receiver = From (NewSelectBuilder ''c1'' []) ''table'' [] :: val SelectBuilder,
         var_DefaultDialect = MySQL, bufpool = []\<rparr>)
      = Inr (''SELECT `c1` FROM `table`'', [])
   \<and> fst (SelectBuilder_Build_steps (snd (SelectBuilder_Build_steps
        \<lparr>receiver = From (NewSelectBuilder ''c1'' []) ''table'' [] :: val SelectBuilder,
         var_DefaultDialect = MySQL, bufpool = []\<rparr>)))
      = Inr (''SELECT `c1` FROM `table`'', [])
   \<and> fst (SelectBuilder_String_steps
        \<lparr>receiver = From (NewSelectBuilder ''c1'' []) ''table'' [] :: val SelectBuilder,
         var_DefaultDialect = MySQL, bufpool = []\<rparr>)
      = Inr ''SELECT `c1` FROM `table`''
   \<and> pool_ok
     \<lparr>receiver = (Table Update ''table'')\<lparr>upd_setters := [Add ''c4'' (GoInt 456)]\<rparr>,
      var_DefaultDialect = MySQL, bufpool = []\<rparr>
   \<and> fst (UpdateBuilder_Build_steps
        \<lparr>receiver = (Table Update ''table'')\<lparr>upd_setters := [Add ''c4'' (GoInt 456)]\<rparr>,
         var_DefaultDialect = MySQL, bufpool = []\<rparr>)
      = Inr (''UPDATE `table` SET `c4`=`c4`+?'', [GoInt 456])
   \<and> fst (UpdateBuilder_Build_steps (snd (UpdateBuilder_Build_steps
        \<lparr>receiver = (Table Update ''table'')\<lparr>upd_setters := [Add ''c4'' (GoInt 456)]\<rparr>,
         var_DefaultDialect = MySQL, bufpool = []\<rparr>)))
      = Inr (''UPDATE `table` SET `c4`=`c4`+?'', [GoInt 456])
   \<and> pool_ok
     \<lparr>receiver = \<lparr>del_intercept = None, del_executor = None, del_dialect = None,
                   del_table = [], del_wheres = [Equal ''c3'' (GoInt 789)]\<rparr>,
      var_DefaultDialect = MySQL, bufpool = [[]]\<rparr>
   \<and> fst (DeleteBuilder_Build_steps
        \<lparr>receiver = \<lparr>del_intercept = None, del_executor = None, del_dialect = None,
                      del_table = [], del_wheres = [Equal ''c3'' (GoInt 789)]\<rparr>,
         var_DefaultDialect = MySQL, bufpool = [[]]\<rparr>)
      = Inl (Panic ''DeleteBuilder: no table name'')
   \<and> fst (DeleteBuilder_Build_steps (snd (DeleteBuilder_Build_steps
        \<lparr>receiver = \<lparr>del_intercept = None, del_executor = None, del_dialect = None,
                      del_table = [], del_wheres = [Equal ''c3'' (GoInt 789)]\<rparr>,
         var_DefaultDialect = MySQL, bufpool = [[]]\<rparr>)))
      = Inl (Panic ''DeleteBuilder: no table name'')
   \<and> fst (DeleteBuilder_String_steps
        \<lparr>receiver = \<lparr>del_intercept = None, del_executor = None, del_dialect = None,
                      del_table = [], del_wheres = [Equal ''c3'' (GoInt 789)]\<rparr>,
         var_DefaultDialect = MySQL, bufpool = [[]]\<rparr>)
      = Inl (Panic ''DeleteBuilder: no table name'')"
proof -
  let ?bi = "(Columns (Into Insert ''table'') [''c1''])
               \<lparr>ins_dialect := None, ins_values := [[GoInt 1]]\<rparr>"
  let ?wi = "\<lparr>receiver = ?bi, var_DefaultDialect = Postgres, bufpool = [[]]\<rparr>"
  let ?ws = "\<lparr>receiver = From (NewSelectBuilder ''c1'' []) ''table'' [] :: val SelectBuilder,
      var_DefaultDialect = MySQL, bufpool = []\<rparr>"
  let ?wu = "\<lparr>receiver = (Table Update ''table'')\<lparr>upd_setters := [Add ''c4'' (GoInt 456)]\<rparr>,
      var_DefaultDialect = MySQL, bufpool = []\<rparr>"
  let ?wd = "\<lparr>receiver = \<lparr>del_intercept = None, del_executor = None, del_dialect = None,
                   del_table = [], del_wheres = [Equal ''c3'' (GoInt 789)]\<rparr>,
      var_DefaultDialect = MySQL, bufpool = [[]]\<rparr>"
  have ok: "pool_ok ?wi" "pool_ok ?ws" "pool_ok ?wu" "pool_ok ?wd"
    by (simp_all add: pool_ok_def)
  note all = build_reads_builder [of ?wi ?ws ?wu ?wd]
  have i: "InsertBuilder_Build (?bi\<lparr>ins_dialect := Some Postgres\<rparr>)
      = Inr (''INSERT INTO \"table\" (\"c1\") VALUES ($1)'', [GoInt 1])"
    by (simp add: Columns_def Into_def Insert_def NewInsertBuilder_def
        InsertBuilder_Build_def builtin_defs accumulator_defs addValues_def)
  have s: "SelectBuilder_Build (From (NewSelectBuilder ''c1'' []) ''table'' [] :: val SelectBuilder)
      = Inr (''SELECT `c1` FROM `table`'', [])"
    by (simp add: From_def NewSelectBuilder_def SelectBuilder_Select_def getAlias_def
        SelectBuilder_Build_def builtin_defs accumulator_defs)
  have u: "UpdateBuilder_Build ((Table Update ''table'')\<lparr>upd_setters := [Add ''c4'' (GoInt 456)]\<rparr>)
      = Inr (''UPDATE `table` SET `c4`=`c4`+?'', [GoInt 456])"
    by (simp add: builtin_defs accumulator_defs UpdateBuilder_Build_def
        Table_def Update_def NewUpdateBuilder_def write_where_def)
  have ri: "fst (InsertBuilder_Build_steps ?wi)
      = Inr (''INSERT INTO \"table\" (\"c1\") VALUES ($1)'', [GoInt 1])"
    using all ok(1) i by (simp add: Columns_def Into_def Insert_def NewInsertBuilder_def)
  have rs: "fst (SelectBuilder_Build_steps ?ws) = Inr (''SELECT `c1` FROM `table`'', [])"
    using all ok(2) s
    by (simp add: From_def NewSelectBuilder_def SelectBuilder_Select_def getAlias_def DefaultDialect_def)
  have ru: "fst (UpdateBuilder_Build_steps ?wu) = Inr (''UPDATE `table` SET `c4`=`c4`+?'', [GoInt 456])"
    using all ok(3) u
    by (simp add: Table_def Update_def NewUpdateBuilder_def DefaultDialect_def)
  have rd: "fst (DeleteBuilder_Build_steps ?wd) = Inl (Panic ''DeleteBuilder: no table name'')"
    using all ok(4) by (simp add: DeleteBuilder_Build_def)
  from all ok ri rs ru rd show ?thesis
    by simp
qed

section \<open>Alignment of placeholders and arguments\<close>

lemma bound_values_append: "bound_values (fs @ gs) = bound_values fs @ bound_values gs"
  by (induction fs rule: bound_values.induct) simp_all

lemma numbered_append:
  "numbered d n fs = Inr a \<Longrightarrow> numbered d (n + length (bound_values fs)) gs = Inr b \<Longrightarrow>
   numbered d n (fs @ gs) = Inr (a @ b)"
proof (induction fs arbitrary: n a rule: bound_values.induct)
  case 1
  then show ?case by simp
next
  case (2 s fs)
  then show ?case by (auto simp: bindE_eq_Inr)
next
  case (3 v fs)
  then show ?case by (auto simp: bindE_eq_Inr)
qed

lemma numbered_Text: "numbered d n fs = Inr a \<Longrightarrow> numbered d n (Text s # fs) = Inr (s @ a)"
  by simp

lemma Add_result:
  assumes "ArgsBuilder_Add ab v = Inr (p, ab')"
  shows "ab_dialect ab' = ab_dialect ab" and "ab_args ab' = ab_args ab @ [v]"
    and "Placeholder (ab_dialect ab) (int (length (ab_args ab) + 1)) = Inr p"
  using assms by (auto simp: ArgsBuilder_Add_def Let_def bindE_eq_Inr)

lemma bound_values_values_layout: "bound_values (values_layout i vs) = vs"
  by (induction vs arbitrary: i) simp_all

lemma bound_values_rows_layout: "bound_values (rows_layout i rows) = concat rows"
  by (induction rows arbitrary: i) (simp_all add: bound_values_append bound_values_values_layout)

lemma addValues_row_layout:
  "addValues_row buf ab i vs = Inr (buf', ab') \<Longrightarrow>
   ab_dialect ab' = ab_dialect ab \<and> ab_args ab' = ab_args ab @ vs \<and>
   (\<exists>t. buf' = buf @ t \<and> numbered (ab_dialect ab) (length (ab_args ab)) (values_layout i vs) = Inr t)"
proof (induction vs arbitrary: buf ab i)
  case Nil
  then show ?case by simp
next
  case (Cons v vs)
  from Cons.prems obtain p ab1 where add: "ArgsBuilder_Add ab v = Inr (p, ab1)"
    and rest: "addValues_row (buf @ (if i > 0 then '', '' else []) @ p) ab1 (i + 1) vs = Inr (buf', ab')"
    by (auto simp: bindE_eq_Inr)
  note a = Add_result [OF add]
  from Cons.IH [OF rest] a obtain t where
    "ab_dialect ab' = ab_dialect ab" "ab_args ab' = ab_args ab @ v # vs"
    "buf' = (buf @ (if i > 0 then '', '' else []) @ p) @ t"
    "numbered (ab_dialect ab) (length (ab_args ab) + 1) (values_layout (i + 1) vs) = Inr t"
    by auto
  with a(3) show ?case by (auto simp: bindE_eq_Inr)
qed

lemma Build_rows_layout:
  "Build_rows d buf (Some ab) valnum i rows = Inr (buf', abo) \<Longrightarrow>
   \<exists>ab' t. abo = Some ab' \<and> ab_dialect ab' = ab_dialect ab \<and> ab_args ab' = ab_args ab @ concat rows \<and>
     buf' = buf @ t \<and> numbered (ab_dialect ab) (length (ab_args ab)) (rows_layout i rows) = Inr t"
proof (induction rows arbitrary: buf ab i)
  case Nil
  then show ?case by auto
next
  case (Cons vs rows)
  let ?sep = "if i > 0 then '', '' else []"
  from Cons.prems obtain buf1 ab1 where
    row: "addValues_row ((buf @ ?sep) @ ''('') ab 0 vs = Inr (buf1, ab1)" and
    rest: "Build_rows d (buf1 @ '')'') (Some ab1) valnum (i + 1) rows = Inr (buf', abo)"
    by (auto simp: addValues_def bindE_eq_Inr)
  from addValues_row_layout [OF row] obtain t1 where r1:
    "ab_dialect ab1 = ab_dialect ab" "ab_args ab1 = ab_args ab @ vs"
    "buf1 = ((buf @ ?sep) @ ''('') @ t1"
    "numbered (ab_dialect ab) (length (ab_args ab)) (values_layout 0 vs) = Inr t1"
    by blast
  from Cons.IH [OF rest] r1 obtain ab' t2 where r2:
    "abo = Some ab'" "ab_dialect ab' = ab_dialect ab" "ab_args ab' = ab_args ab @ vs @ concat rows"
    "buf' = (buf1 @ '')'') @ t2"
    "numbered (ab_dialect ab) (length (ab_args ab) + length vs) (rows_layout (i + 1) rows) = Inr t2"
    by auto
  have "numbered (ab_dialect ab) (length (ab_args ab) + length vs) (Text '')'' # rows_layout (i + 1) rows)
        = Inr ('')'' @ t2)"
    using r2(5) by simp
  with r1(4) have "numbered (ab_dialect ab) (length (ab_args ab))
      (values_layout 0 vs @ Text '')'' # rows_layout (i + 1) rows) = Inr (t1 @ '')'' @ t2)"
    by (intro numbered_append) (simp_all add: bound_values_values_layout)
  then have "numbered (ab_dialect ab) (length (ab_args ab)) (rows_layout i (vs # rows))
      = Inr ((?sep @ ''('') @ t1 @ '')'' @ t2)"
    by simp
  moreover have "buf' = buf @ (?sep @ ''('') @ t1 @ '')'' @ t2"
    using r1(3) r2(4) by simp
  ultimately show ?case using r2(1,2,3) by (intro exI [of _ ab'] exI [of _ "(?sep @ ''('') @ t1 @ '')'' @ t2"]) simp
qed

lemma intercept_None [simp]: "intercept None sql args = (sql, args)"
  by (simp add: intercept_def)

lemma quoted_eq: "Quote d s = Inr q \<Longrightarrow> quoted d s = q"
  by (simp add: quoted_def)

lemma Condition_layout_aux:
  "(\<forall>s ab'. Condition_Build c ab = Inr (s, ab') \<longrightarrow>
      ab_dialect ab' = ab_dialect ab \<and>
      ab_args ab' = ab_args ab @ bound_values (Condition_layout (ab_dialect ab) c) \<and>
      numbered (ab_dialect ab) (length (ab_args ab)) (Condition_layout (ab_dialect ab) c) = Inr s)"
  "(\<forall>buf' ab'. Condition_BuildAll sep buf i cs ab = Inr (buf', ab') \<longrightarrow>
      ab_dialect ab' = ab_dialect ab \<and>
      ab_args ab' = ab_args ab @ bound_values (Conditions_layout (ab_dialect ab) sep i cs) \<and>
      (\<exists>t. buf' = buf @ t \<and>
         numbered (ab_dialect ab) (length (ab_args ab)) (Conditions_layout (ab_dialect ab) sep i cs) = Inr t))"
proof (induction c ab and sep buf i cs ab rule: Condition_Build_Condition_BuildAll.induct)
  case (1 op column v ab)
  show ?case
    by (auto simp: bindE_eq_Inr quoted_eq dest: Add_result)
next
  case (2 cs ab)
  show ?case
  proof (intro allI impI)
    fix s ab' assume "Condition_Build (And cs) ab = Inr (s, ab')"
    then obtain buf' where all: "Condition_BuildAll '' AND '' ''('' 0 cs ab = Inr (buf', ab')" and s: "s = buf' @ '')''"
      by (auto simp: bindE_eq_Inr)
    from 2 all obtain t where t: "ab_dialect ab' = ab_dialect ab"
      "ab_args ab' = ab_args ab @ bound_values (Conditions_layout (ab_dialect ab) '' AND '' 0 cs)"
      "buf' = ''('' @ t"
      "numbered (ab_dialect ab) (length (ab_args ab)) (Conditions_layout (ab_dialect ab) '' AND '' 0 cs) = Inr t"
      by blast
    have "numbered (ab_dialect ab) (length (ab_args ab)) (Conditions_layout (ab_dialect ab) '' AND '' 0 cs @ [Text '')''])
       = Inr (t @ '')'')"
      using t(4) by (intro numbered_append) simp_all
    with t s show "ab_dialect ab' = ab_dialect ab \<and>
      ab_args ab' = ab_args ab @ bound_values (Condition_layout (ab_dialect ab) (And cs)) \<and>
      numbered (ab_dialect ab) (length (ab_args ab)) (Condition_layout (ab_dialect ab) (And cs)) = Inr s"
      by (simp add: bound_values_append)
  qed
next
  case (3 cs ab)
  show ?case
  proof (intro allI impI)
    fix s ab' assume "Condition_Build (Or cs) ab = Inr (s, ab')"
    then obtain buf' where all: "Condition_BuildAll '' OR '' ''('' 0 cs ab = Inr (buf', ab')" and s: "s = buf' @ '')''"
      by (auto simp: bindE_eq_Inr)
    from 3 all obtain t where t: "ab_dialect ab' = ab_dialect ab"
      "ab_args ab' = ab_args ab @ bound_values (Conditions_layout (ab_dialect ab) '' OR '' 0 cs)"
      "buf' = ''('' @ t"
      "numbered (ab_dialect ab) (length (ab_args ab)) (Conditions_layout (ab_dialect ab) '' OR '' 0 cs) = Inr t"
      by blast
    have "numbered (ab_dialect ab) (length (ab_args ab)) (Conditions_layout (ab_dialect ab) '' OR '' 0 cs @ [Text '')''])
       = Inr (t @ '')'')"
      using t(4) by (intro numbered_append) simp_all
    with t s show "ab_dialect ab' = ab_dialect ab \<and>
      ab_args ab' = ab_args ab @ bound_values (Condition_layout (ab_dialect ab) (Or cs)) \<and>
      numbered (ab_dialect ab) (length (ab_args ab)) (Condition_layout (ab_dialect ab) (Or cs)) = Inr s"
      by (simp add: bound_values_append)
  qed
next
  case (4 sep buf i ab)
  show ?case by simp
next
  case (5 sep buf i c cs ab)
  show ?case
  proof (intro allI impI)
    fix buf' ab' assume "Condition_BuildAll sep buf i (c # cs) ab = Inr (buf', ab')"
    then obtain s ab1 where one: "Condition_Build c ab = Inr (s, ab1)"
      and rest: "Condition_BuildAll sep (buf @ (if i > 0 then sep else []) @ s) (i + 1) cs ab1 = Inr (buf', ab')"
      by (auto simp: bindE_eq_Inr)
    let ?d = "ab_dialect ab"
    from 5(1) one have c: "ab_dialect ab1 = ?d"
      "ab_args ab1 = ab_args ab @ bound_values (Condition_layout ?d c)"
      "numbered ?d (length (ab_args ab)) (Condition_layout ?d c) = Inr s"
      by auto
    have "ab_dialect ab' = ab_dialect ab1 \<and>
      ab_args ab' = ab_args ab1 @ bound_values (Conditions_layout (ab_dialect ab1) sep (i + 1) cs) \<and>
      (\<exists>t. buf' = (buf @ (if i > 0 then sep else []) @ s) @ t \<and>
         numbered (ab_dialect ab1) (length (ab_args ab1)) (Conditions_layout (ab_dialect ab1) sep (i + 1) cs) = Inr t)"
      using 5(2) [of s ab1] rest by blast
    then obtain t where t: "ab_dialect ab' = ?d"
      "ab_args ab' = ab_args ab1 @ bound_values (Conditions_layout ?d sep (i + 1) cs)"
      "buf' = (buf @ (if i > 0 then sep else []) @ s) @ t"
      "numbered ?d (length (ab_args ab1)) (Conditions_layout ?d sep (i + 1) cs) = Inr t"
      unfolding c(1) by blast
    have "numbered ?d (length (ab_args ab)) (Condition_layout ?d c @ Conditions_layout ?d sep (i + 1) cs) = Inr (s @ t)"
      using c t by (intro numbered_append) simp_all
    with c t show "ab_dialect ab' = ab_dialect ab \<and>
      ab_args ab' = ab_args ab @ bound_values (Conditions_layout (ab_dialect ab) sep i (c # cs)) \<and>
      (\<exists>t. buf' = buf @ t \<and>
         numbered (ab_dialect ab) (length (ab_args ab)) (Conditions_layout (ab_dialect ab) sep i (c # cs)) = Inr t)"
      by (simp add: bound_values_append)
  qed
qed

lemma write_where_layout:
  assumes "write_where buf wheres ab = Inr (buf', ab')"
  shows "ab_dialect ab' = ab_dialect ab \<and>
    ab_args ab' = ab_args ab @ bound_values (where_layout (ab_dialect ab) wheres) \<and>
    (\<exists>t. buf' = buf @ t \<and>
       numbered (ab_dialect ab) (length (ab_args ab)) (where_layout (ab_dialect ab) wheres) = Inr t)"
proof (cases "wheres = []")
  case True
  with assms show ?thesis by (simp add: write_where_def where_layout_def)
next
  case False
  let ?e = "if length wheres > 1 then And wheres else wheres ! 0"
  from assms False obtain s where c: "Condition_Build ?e ab = Inr (s, ab')" and b: "buf' = buf @ '' WHERE '' @ s"
    by (auto simp: write_where_def Let_def bindE_eq_Inr)
  from Condition_layout_aux(1) [of ?e ab] c have l: "ab_dialect ab' = ab_dialect ab"
    "ab_args ab' = ab_args ab @ bound_values (Condition_layout (ab_dialect ab) ?e)"
    "numbered (ab_dialect ab) (length (ab_args ab)) (Condition_layout (ab_dialect ab) ?e) = Inr s"
    by blast+
  have "where_layout (ab_dialect ab) wheres = Text '' WHERE '' # Condition_layout (ab_dialect ab) ?e"
    using False by (simp add: where_layout_def)
  with l b show ?thesis by simp
qed

lemma Setter_layout_ok:
  "Setter_Build s ab = Inr (t, ab') \<Longrightarrow>
   ab_dialect ab' = ab_dialect ab \<and>
   ab_args ab' = ab_args ab @ bound_values (Setter_layout (ab_dialect ab) s) \<and>
   numbered (ab_dialect ab) (length (ab_args ab)) (Setter_layout (ab_dialect ab) s) = Inr t"
  by (cases s) (auto simp: bindE_eq_Inr quoted_eq dest: Add_result)

lemma write_setters_layout:
  "write_setters buf ab i ss = Inr (buf', ab') \<Longrightarrow>
   ab_dialect ab' = ab_dialect ab \<and>
   ab_args ab' = ab_args ab @ bound_values (setters_layout (ab_dialect ab) i ss) \<and>
   (\<exists>t. buf' = buf @ t \<and>
      numbered (ab_dialect ab) (length (ab_args ab)) (setters_layout (ab_dialect ab) i ss) = Inr t)"
proof (induction ss arbitrary: buf ab i)
  case Nil
  then show ?case by simp
next
  case (Cons s ss)
  let ?d = "ab_dialect ab"
  let ?sep = "if i > 0 then '', '' else []"
  from Cons.prems obtain t1 ab1 where one: "Setter_Build s ab = Inr (t1, ab1)"
    and rest: "write_setters (buf @ ?sep @ t1) ab1 (i + 1) ss = Inr (buf', ab')"
    by (auto simp: bindE_eq_Inr)
  from Setter_layout_ok [OF one] have c: "ab_dialect ab1 = ?d"
    "ab_args ab1 = ab_args ab @ bound_values (Setter_layout ?d s)"
    "numbered ?d (length (ab_args ab)) (Setter_layout ?d s) = Inr t1"
    by blast+
  from Cons.IH [OF rest] obtain t where t: "ab_dialect ab' = ?d"
    "ab_args ab' = ab_args ab1 @ bound_values (setters_layout ?d (i + 1) ss)"
    "buf' = (buf @ ?sep @ t1) @ t"
    "numbered ?d (length (ab_args ab1)) (setters_layout ?d (i + 1) ss) = Inr t"
    unfolding c(1) by blast
  have "numbered ?d (length (ab_args ab)) (Setter_layout ?d s @ setters_layout ?d (i + 1) ss) = Inr (t1 @ t)"
    using c t by (intro numbered_append) simp_all
  with c t show ?case by (simp add: bound_values_append)
qed


lemma addValues_template_text:
  "valnum + 1 - i = k \<Longrightarrow> addValues_template d buf i valnum = Inr buf' \<Longrightarrow>
   buf' = buf @ template_text d i k"
proof (induction k arbitrary: i buf)
  case 0
  then have "\<not> i \<le> valnum" by simp
  with 0 show ?case by (simp add: addValues_template.simps)
next
  case (Suc k)
  then have le: "i \<le> valnum" by simp
  with Suc.prems(2) obtain p where p: "Placeholder d (int i) = Inr p"
    and rest: "addValues_template d (buf @ (if i > 1 then '', '' else []) @ p) (i + 1) valnum = Inr buf'"
    by (subst (asm) addValues_template.simps) (auto simp: bindE_eq_Inr)
  from Suc.prems(1) have "valnum + 1 - (i + 1) = k" by simp
  from Suc.IH [OF this rest] p show ?case by (simp add: placeholder_def)
qed

lemma write_quoted_text: "write_quoted d buf i cs = Inr buf' \<Longrightarrow> buf' = buf @ quoted_list d i cs"
proof (induction cs arbitrary: buf i)
  case Nil
  then show ?case by simp
next
  case (Cons c cs)
  from Cons.prems obtain q where q: "Quote d c = Inr q" and
    rest: "write_quoted d (buf @ (if i > 0 then '', '' else []) @ q) (i + 1) cs = Inr buf'"
    by (auto simp: bindE_eq_Inr)
  from Cons.IH [OF rest] quoted_eq [OF q] show ?case by simp
qed

lemma alias_text:
  "(if a \<noteq> [] then bindE (Quote d a) (\<lambda>q. Inr ('' AS '' @ q)) else Inr []) = Inr al \<Longrightarrow>
   al = (if a \<noteq> [] then '' AS '' @ quoted d a else [])"
  by (auto simp: bindE_eq_Inr quoted_eq split: if_splits)

lemma write_columns_text: "write_columns d buf i cs = Inr buf' \<Longrightarrow> buf' = buf @ columns_text d i cs"
proof (induction cs arbitrary: buf i)
  case Nil
  then show ?case by simp
next
  case (Cons c cs)
  from Cons.prems obtain q al where q: "Quote d (col_Column c) = Inr q"
    and al: "(if col_Alias c \<noteq> [] then bindE (Quote d (col_Alias c)) (\<lambda>a. Inr ('' AS '' @ a))
            else Inr []) = Inr al"
    and rest: "write_columns d (buf @ (if i > 0 then '', '' else []) @ q @ al) (i + 1) cs = Inr buf'"
    by (auto simp: bindE_eq_Inr)
  from Cons.IH [OF rest] quoted_eq [OF q] alias_text [OF al] show ?case by simp
qed

lemma write_tables_text: "write_tables d buf i ts = Inr buf' \<Longrightarrow> buf' = buf @ tables_text d i ts"
proof (induction ts arbitrary: buf i)
  case Nil
  then show ?case by simp
next
  case (Cons t ts)
  from Cons.prems obtain q al where q: "Quote d (tbl_Table t) = Inr q"
    and al: "(if tbl_Alias t \<noteq> [] then bindE (Quote d (tbl_Alias t)) (\<lambda>a. Inr ('' AS '' @ a))
            else Inr []) = Inr al"
    and rest: "write_tables d (buf @ (if i > 0 then '', '' else []) @ q @ al) (i + 1) ts = Inr buf'"
    by (auto simp: bindE_eq_Inr)
  from Cons.IH [OF rest] quoted_eq [OF q] alias_text [OF al] show ?case by simp
qed

lemma write_ons_text: "write_ons d buf i ons = Inr buf' \<Longrightarrow> buf' = buf @ ons_text d i ons"
proof (induction ons arbitrary: buf i)
  case Nil
  then show ?case by simp
next
  case (Cons on ons)
  from Cons.prems obtain l r where l: "Quote d (on_Left on) = Inr l" and r: "Quote d (on_Right on) = Inr r"
    and rest: "write_ons d (buf @ (if i > 0 then '' AND '' else []) @ l @ ''='' @ r) (i + 1) ons = Inr buf'"
    by (auto simp: bindE_eq_Inr)
  from Cons.IH [OF rest] quoted_eq [OF l] quoted_eq [OF r] show ?case by simp
qed

lemma joinTable_Build_text: "joinTable_Build jt buf d = Inr buf' \<Longrightarrow> buf' = buf @ join_text d jt"
  by (auto simp: joinTable_Build_def join_text_def Let_def bindE_eq_Inr quoted_eq
      split: if_splits dest!: write_ons_text)

lemma write_joins_text: "write_joins d buf js = Inr buf' \<Longrightarrow> buf' = buf @ joins_text d js"
proof (induction js arbitrary: buf)
  case Nil
  then show ?case by simp
next
  case (Cons j js)
  from Cons.prems obtain buf1 where j: "joinTable_Build j buf d = Inr buf1"
    and rest: "write_joins d buf1 js = Inr buf'"
    by (auto simp: bindE_eq_Inr)
  from Cons.IH [OF rest] joinTable_Build_text [OF j] show ?case by simp
qed

lemma write_havings_text: "write_havings buf i hs = buf @ havings_text i hs"
  by (induction hs arbitrary: buf i) simp_all

lemma write_orderbys_text: "write_orderbys d buf i obs = Inr buf' \<Longrightarrow> buf' = buf @ orderbys_text d i obs"
proof (induction obs arbitrary: buf i)
  case Nil
  then show ?case by simp
next
  case (Cons ob obs)
  from Cons.prems obtain q where q: "Quote d (ob_Column ob) = Inr q" and
    rest: "write_orderbys d
       (buf @ (if i > 0 then '', '' else []) @ q @ (if ob_Order ob \<noteq> [] then '' '' @ ob_Order ob else []))
       (i + 1) obs = Inr buf'"
    by (auto simp: bindE_eq_Inr)
  from Cons.IH [OF rest] quoted_eq [OF q] show ?case by simp
qed

lemma bindE_InrE:
  assumes "bindE m f = Inr y"
  obtains x where "m = Inr x" and "f x = Inr y"
  using assms by (auto simp: bindE_eq_Inr)

lemma aligned_intercept:
  "aligned d fs sql args \<Longrightarrow>
   \<exists>sql' args'. intercept h sql args = intercept h sql' args' \<and> aligned d fs sql' args'"
  by blast

lemma numbered_single: "numbered d n [Text t] = Inr t"
  by simp

lemma aligned_insert_template:
  assumes "addValues_template d (buf0 @ ''('') 1 n = Inr buf'"
  shows "aligned d [Text buf0, Text (''('' @ template_text d 1 n @ '')'')] (buf' @ '')'') []"
  using addValues_template_text [OF _ assms, of n]
  by (simp add: aligned_def)

lemma aligned_insert_rows:
  assumes "Build_rows d buf0 (Some (NewArgsBuilder d)) valnum 0 rows = Inr (buf', abo)"
    and "(case abo of None \<Rightarrow> Inl nil_dereference | Some a \<Rightarrow> Inr (buf', ArgsBuilder_Args a)) = Inr (sql, args)"
  shows "aligned d (Text buf0 # rows_layout 0 rows) sql args"
proof -
  from Build_rows_layout [OF assms(1)] obtain ab' t where l:
    "abo = Some ab'" "ab_args ab' = concat rows" "buf' = buf0 @ t"
    "numbered d 0 (rows_layout 0 rows) = Inr t"
    by (auto simp: NewArgsBuilder_def)
  with assms(2) show ?thesis
    by (auto simp: aligned_def ArgsBuilder_Args_def bound_values_rows_layout)
qed

lemma insert_head_eq:
  assumes "Quote d (ins_table b) = Inr qt"
    and "(if length (ins_columns b) > 0 then
                 bindE (write_quoted d (ins_verb b @ '' INTO '' @ qt @ '' ('') 0 (ins_columns b))
                   (\<lambda>buf. Inr (buf @ '')''))
               else Inr (ins_verb b @ '' INTO '' @ qt)) = Inr buf"
  shows "buf @ '' VALUES '' = insert_head d b"
  using assms
  by (auto simp: insert_head_def bindE_eq_Inr quoted_eq split: if_splits dest!: write_quoted_text)

lemma insert_aligned:
  assumes "InsertBuilder_Build b = Inr r"
  shows "\<exists>sql args. r = intercept (ins_intercept b) sql args \<and>
     aligned (dialect_or_default (ins_dialect b))
       (InsertBuilder_layout (dialect_or_default (ins_dialect b)) b) sql args"
proof -
  let ?d = "dialect_or_default (ins_dialect b)"
  let ?colnum = "length (ins_columns b)"
  let ?vallen = "length (ins_values b)"
  let ?valnum0 = "if ?vallen > 0 then length (ins_values b ! 0) else 0"
  from assms obtain valnum where
    v: "(if ?colnum = 0 then
               (if ?valnum0 = 0 then Inl (Panic ''InsertBuilder: no columns or values'') else Inr ?valnum0)
             else if ?valnum0 = 0 then Inr ?colnum
             else if ?colnum \<noteq> ?valnum0 then Inl (Panic ''InsertBuilder: len(columns) != len(values)'')
             else Inr ?valnum0) = Inr valnum"
    and rest1: "(if ins_table b = [] then Inl (Panic ''InsertBuilder: no table name'')
      else
        bindE (Quote ?d (ins_table b)) (\<lambda>qt.
        bindE (if ?colnum > 0 then
                 bindE (write_quoted ?d (ins_verb b @ '' INTO '' @ qt @ '' ('') 0 (ins_columns b))
                   (\<lambda>buf. Inr (buf @ '')''))
               else Inr (ins_verb b @ '' INTO '' @ qt)) (\<lambda>buf.
        bindE (if ?vallen = 0 then
                 bindE (addValues ?d (buf @ '' VALUES '') (None :: 'a ArgsBuilder option) valnum [])
                   (\<lambda>(buf', _). Inr (buf', []))
               else
                 bindE (Build_rows ?d (buf @ '' VALUES '') (Some (NewArgsBuilder ?d)) valnum 0 (ins_values b))
                   (\<lambda>(buf', ab). case ab of
                        None \<Rightarrow> Inl nil_dereference
                      | Some a \<Rightarrow> Inr (buf', ArgsBuilder_Args a))) (\<lambda>(sql, args).
        Inr (intercept (ins_intercept b) sql args))))) = Inr r"
    unfolding InsertBuilder_Build_def Let_def bindE_eq_Inr [of _ _ r] by blast
  from rest1 obtain qt buf sql args where
    q: "Quote ?d (ins_table b) = Inr qt"
    and c: "(if ?colnum > 0 then
                 bindE (write_quoted ?d (ins_verb b @ '' INTO '' @ qt @ '' ('') 0 (ins_columns b))
                   (\<lambda>buf. Inr (buf @ '')''))
               else Inr (ins_verb b @ '' INTO '' @ qt)) = Inr buf"
    and body: "(if ?vallen = 0 then
                 bindE (addValues ?d (buf @ '' VALUES '') (None :: 'a ArgsBuilder option) valnum [])
                   (\<lambda>(buf', _). Inr (buf', []))
               else
                 bindE (Build_rows ?d (buf @ '' VALUES '') (Some (NewArgsBuilder ?d)) valnum 0 (ins_values b))
                   (\<lambda>(buf', ab). case ab of
                        None \<Rightarrow> Inl nil_dereference
                      | Some a \<Rightarrow> Inr (buf', ArgsBuilder_Args a))) = Inr (sql, args)"
    and r: "r = intercept (ins_intercept b) sql args"
    by (cases "ins_table b = []") (auto elim!: bindE_InrE)
  note head = insert_head_eq [OF q c]
  have "aligned ?d (InsertBuilder_layout ?d b) sql args"
  proof (cases "?vallen = 0")
    case True
    with v have vn: "valnum = ?colnum" by (auto split: if_splits)
    from body True obtain buf' where
      t: "addValues_template ?d ((buf @ '' VALUES '') @ ''('') 1 valnum = Inr buf'"
      and s: "sql = buf' @ '')''" and a: "args = []"
      by (auto simp: addValues_def elim!: bindE_InrE)
    from aligned_insert_template [OF t] s a vn head True show ?thesis
      by (simp add: InsertBuilder_layout_def)
  next
    case False
    with body obtain buf' abo where
      rows: "Build_rows ?d (buf @ '' VALUES '') (Some (NewArgsBuilder ?d)) valnum 0 (ins_values b) = Inr (buf', abo)"
      and res: "(case abo of None \<Rightarrow> Inl nil_dereference
                 | Some a \<Rightarrow> Inr (buf', ArgsBuilder_Args a)) = Inr (sql, args)"
      by (auto elim!: bindE_InrE)
    from aligned_insert_rows [OF rows res] head False show ?thesis
      by (simp add: InsertBuilder_layout_def)
  qed
  with r show ?thesis by blast
qed

lemma aligned_update:
  assumes "Quote d (upd_table b) = Inr qt"
    and "write_setters (''UPDATE '' @ qt @ '' SET '') (NewArgsBuilder d) 0 (upd_setters b) = Inr (buf, ab)"
    and "write_where buf (upd_wheres b) ab = Inr (sql, ab')"
  shows "aligned d (UpdateBuilder_layout d b) sql (ArgsBuilder_Args ab')"
proof -
  let ?ss = "setters_layout d 0 (upd_setters b)"
  let ?ws = "where_layout d (upd_wheres b)"
  from write_setters_layout [OF assms(2)] obtain t1 where s: "ab_dialect ab = d"
    "ab_args ab = bound_values ?ss" "buf = (''UPDATE '' @ qt @ '' SET '') @ t1"
    "numbered d 0 ?ss = Inr t1"
    by (auto simp: NewArgsBuilder_def)
  from write_where_layout [OF assms(3)] s obtain t2 where w:
    "ab_args ab' = bound_values ?ss @ bound_values ?ws"
    "sql = buf @ t2"
    "numbered d (length (bound_values ?ss)) ?ws = Inr t2"
    by auto
  have "numbered d 0 (?ss @ ?ws) = Inr (t1 @ t2)"
    using s(4) w(3) by (intro numbered_append) simp_all
  with s w quoted_eq [OF assms(1)] show ?thesis
    by (simp add: aligned_def UpdateBuilder_layout_def ArgsBuilder_Args_def bound_values_append)
qed

lemma aligned_delete:
  assumes "Quote d (del_table b) = Inr qt"
    and "write_where (''DELETE FROM '' @ qt) (del_wheres b) (NewArgsBuilder d) = Inr (sql, ab')"
  shows "aligned d (DeleteBuilder_layout d b) sql (ArgsBuilder_Args ab')"
  using write_where_layout [OF assms(2)] quoted_eq [OF assms(1)]
  by (auto simp: aligned_def DeleteBuilder_layout_def ArgsBuilder_Args_def NewArgsBuilder_def)

lemma update_aligned:
  assumes "UpdateBuilder_Build b = Inr r"
  shows "\<exists>sql args. r = intercept (upd_intercept b) sql args \<and>
     aligned (dialect_or_default (upd_dialect b))
       (UpdateBuilder_layout (dialect_or_default (upd_dialect b)) b) sql args"
  using assms
  by (auto simp: UpdateBuilder_Build_def Let_def bindE_eq_Inr split: if_splits
      intro!: aligned_intercept aligned_update)

lemma delete_aligned:
  assumes "DeleteBuilder_Build b = Inr r"
  shows "\<exists>sql args. r = intercept (del_intercept b) sql args \<and>
     aligned (dialect_or_default (del_dialect b))
       (DeleteBuilder_layout (dialect_or_default (del_dialect b)) b) sql args"
  using assms
  by (auto simp: DeleteBuilder_Build_def Let_def bindE_eq_Inr split: if_splits
      intro!: aligned_intercept aligned_delete)

lemma if_Inl_InrD: "(if c then Inl e else m) = Inr r \<Longrightarrow> m = Inr r"
  by (simp split: if_splits)

lemma bind_spine:
  "bindE m1 (\<lambda>x1. bindE (m2 x1) (\<lambda>x2. bindE (m3 x2) (\<lambda>x3. bindE (m4 x3) (\<lambda>(b, a). k b a)))) = Inr r \<Longrightarrow>
   \<exists>x1 x2 x3 b a. m1 = Inr x1 \<and> m2 x1 = Inr x2 \<and> m3 x2 = Inr x3 \<and> m4 x3 = Inr (b, a) \<and> k b a = Inr r"
  by (auto simp: bindE_eq_Inr)

lemma select_tail_text:
  assumes "bindE (if length (sel_groupbys b) > 0 then
                 bindE (write_quoted d (buf4 @ '' GROUP BY '') 0 (sel_groupbys b)) (\<lambda>buf.
                   Inr (if length (sel_havings b) > 0
                        then write_havings (buf @ '' HAVING '') 0 (sel_havings b) else buf))
               else Inr buf4) (\<lambda>buf5.
        bindE (if length (sel_orderbys b) > 0
               then write_orderbys d (buf5 @ '' ORDER BY '') 0 (sel_orderbys b)
               else Inr buf5) (\<lambda>buf6.
        bindE (if sint (sel_limit b) > 0 \<or> sint (sel_offset b) > 0 then
                 bindE (LimitOffset d (sel_limit b) (sel_offset b)) (\<lambda>lo. Inr (buf6 @ '' '' @ lo))
               else Inr buf6) (\<lambda>sql.
        Inr (intercept (sel_intercept b) sql args)))) = Inr r"
  shows "r = intercept (sel_intercept b) (buf4 @ select_tail d b) args"
proof -
  from assms obtain buf5 buf6 sql where
    1: "(if length (sel_groupbys b) > 0 then
                 bindE (write_quoted d (buf4 @ '' GROUP BY '') 0 (sel_groupbys b)) (\<lambda>buf.
                   Inr (if length (sel_havings b) > 0
                        then write_havings (buf @ '' HAVING '') 0 (sel_havings b) else buf))
               else Inr buf4) = Inr buf5"
    and 2: "(if length (sel_orderbys b) > 0
               then write_orderbys d (buf5 @ '' ORDER BY '') 0 (sel_orderbys b)
               else Inr buf5) = Inr buf6"
    and 3: "(if sint (sel_limit b) > 0 \<or> sint (sel_offset b) > 0 then
                 bindE (LimitOffset d (sel_limit b) (sel_offset b)) (\<lambda>lo. Inr (buf6 @ '' '' @ lo))
               else Inr buf6) = Inr sql"
    and r: "r = intercept (sel_intercept b) sql args"
    unfolding bindE_eq_Inr by blast
  from 1 have g: "buf5 = buf4 @ (if length (sel_groupbys b) > 0 then
        '' GROUP BY '' @ quoted_list d 0 (sel_groupbys b)
        @ (if length (sel_havings b) > 0 then '' HAVING '' @ havings_text 0 (sel_havings b) else [])
      else [])"
    by (auto simp: bindE_eq_Inr write_havings_text split: if_splits dest!: write_quoted_text)
  from 2 have o: "buf6 = buf5 @ (if length (sel_orderbys b) > 0
      then '' ORDER BY '' @ orderbys_text d 0 (sel_orderbys b) else [])"
    by (auto split: if_splits dest!: write_orderbys_text)
  from 3 have l: "sql = buf6 @ (if sint (sel_limit b) > 0 \<or> sint (sel_offset b) > 0
        then '' '' @ limit_text d (sel_limit b) (sel_offset b) else [])"
    by (auto simp: bindE_eq_Inr limit_text_def split: if_splits)
  from g o l have "sql = buf4 @ select_tail d b"
    unfolding select_tail_def by (simp only: append_assoc)
  with r show ?thesis by simp
qed

lemma select_where_layout:
  assumes "(if length wheres > 0 then
              bindE (Condition_Build (if length wheres > 1 then And wheres else wheres ! 0) (NewArgsBuilder d))
                (\<lambda>(s, ab). Inr (buf3 @ '' WHERE '' @ s, ArgsBuilder_Args ab))
            else Inr (buf3, [])) = Inr (buf4, args)"
  shows "args = bound_values (where_layout d wheres) \<and>
    (\<exists>t. buf4 = buf3 @ t \<and> numbered d 0 (where_layout d wheres) = Inr t)"
proof -
  have "bindE (write_where buf3 wheres (NewArgsBuilder d)) (\<lambda>(b, ab). Inr (b, ArgsBuilder_Args ab))
        = Inr (buf4, args)"
    using assms
    by (cases "Condition_Build (if length wheres > 1 then And wheres else wheres ! 0) (NewArgsBuilder d)")
      (auto simp: write_where_def Let_def NewArgsBuilder_def ArgsBuilder_Args_def split: if_splits)
  then obtain ab' where w: "write_where buf3 wheres (NewArgsBuilder d) = Inr (buf4, ab')"
    and a: "args = ArgsBuilder_Args ab'"
    by (auto simp: bindE_eq_Inr)
  from write_where_layout [OF w] a show ?thesis
    by (auto simp: NewArgsBuilder_def ArgsBuilder_Args_def)
qed

lemma aligned_where:
  "numbered d 0 fs = Inr t \<Longrightarrow> aligned d (Text pre # fs @ [Text post]) (pre @ t @ post) (bound_values fs)"
proof -
  assume n: "numbered d 0 fs = Inr t"
  have "numbered d 0 (fs @ [Text post]) = Inr (t @ post)"
    using n by (intro numbered_append) simp_all
  then show ?thesis by (simp add: aligned_def bound_values_append)
qed

lemma select_aligned:
  assumes "SelectBuilder_Build b = Inr r"
  shows "\<exists>sql args. r = intercept (sel_intercept b) sql args \<and>
     aligned (dialect_or_default (sel_dialect b))
       (SelectBuilder_layout (dialect_or_default (sel_dialect b)) b) sql args"
proof -
  let ?d = "dialect_or_default (sel_dialect b)"
  from assms have "\<exists>buf1 buf2 buf3 buf4 args.
      buf1 = (''SELECT '' @ (if sel_distinct b then ''DISTINCT '' else [])) @ columns_text ?d 0 (sel_columns b)
      \<and> buf2 = (buf1 @ '' FROM '') @ tables_text ?d 0 (sel_tables b)
      \<and> buf3 = buf2 @ joins_text ?d (sel_joins b)
      \<and> (if length (sel_wheres b) > 0 then
              bindE (Condition_Build (if length (sel_wheres b) > 1 then And (sel_wheres b) else sel_wheres b ! 0) (NewArgsBuilder ?d))
                (\<lambda>(s, ab). Inr (buf3 @ '' WHERE '' @ s, ArgsBuilder_Args ab))
            else Inr (buf3, [])) = Inr (buf4, args)
      \<and> r = intercept (sel_intercept b) (buf4 @ select_tail ?d b) args"
    unfolding SelectBuilder_Build_def Let_def
    apply -
    apply (drule if_Inl_InrD)
    apply (drule if_Inl_InrD)
    apply (drule bind_spine)
    apply (elim exE conjE)
    apply (drule select_tail_text)
    apply (drule write_columns_text)
    apply (drule write_tables_text)
    apply (drule write_joins_text)
    apply blast
    done
  then obtain buf1 buf2 buf3 buf4 args where
    h1: "buf1 = (''SELECT '' @ (if sel_distinct b then ''DISTINCT '' else [])) @ columns_text ?d 0 (sel_columns b)"
    and h2: "buf2 = (buf1 @ '' FROM '') @ tables_text ?d 0 (sel_tables b)"
    and h3: "buf3 = buf2 @ joins_text ?d (sel_joins b)"
    and w0: "(if length (sel_wheres b) > 0 then
              bindE (Condition_Build (if length (sel_wheres b) > 1 then And (sel_wheres b) else sel_wheres b ! 0) (NewArgsBuilder ?d))
                (\<lambda>(s, ab). Inr (buf3 @ '' WHERE '' @ s, ArgsBuilder_Args ab))
            else Inr (buf3, [])) = Inr (buf4, args)"
    and r: "r = intercept (sel_intercept b) (buf4 @ select_tail ?d b) args"
    by blast
  from h1 h2 h3 have head: "buf3 = select_head ?d b" by (simp add: select_head_def)
  from select_where_layout [OF w0] obtain t where
    "args = bound_values (where_layout ?d (sel_wheres b))" "buf4 = select_head ?d b @ t"
    "numbered ?d 0 (where_layout ?d (sel_wheres b)) = Inr t"
    unfolding head by blast
  with r aligned_where [of ?d "where_layout ?d (sel_wheres b)" t "select_head ?d b" "select_tail ?d b"]
  show ?thesis by (auto simp: SelectBuilder_layout_def)
qed

text \<open>
  C1. For each of the four builders and every dialect (any value of the interface, not
  only the built-in ones): when \<^verbatim>\<open>Build\<close> returns, the pair it handed to the
  interception hook is the layout of the statement, written out in full from the fields
  of the builder, with its k-th bound value from the left (k from 1) written as
  \<^verbatim>\<open>Placeholder(k)\<close>, and the arguments are the bound values of the layout in that
  order. The layout of an INSERT without rows is its template: the placeholders 1 to
  the number of columns as text, and no bound value.
\<close>

theorem placeholders_aligned:
  "(InsertBuilder_Build bi = Inr ri \<longrightarrow>
      (\<exists>sql args. ri = intercept (ins_intercept bi) sql args \<and>
         aligned (dialect_or_default (ins_dialect bi))
           (InsertBuilder_layout (dialect_or_default (ins_dialect bi)) bi) sql args))
   \<and> (SelectBuilder_Build bs = Inr rs \<longrightarrow>
      (\<exists>sql args. rs = intercept (sel_intercept bs) sql args \<and>
         aligned (dialect_or_default (sel_dialect bs))
           (SelectBuilder_layout (dialect_or_default (sel_dialect bs)) bs) sql args))
   \<and> (UpdateBuilder_Build bu = Inr ru \<longrightarrow>
      (\<exists>sql args. ru = intercept (upd_intercept bu) sql args \<and>
         aligned (dialect_or_default (upd_dialect bu))
           (UpdateBuilder_layout (dialect_or_default (upd_dialect bu)) bu) sql args))
   \<and> (DeleteBuilder_Build bd = Inr rd \<longrightarrow>
      (\<exists>sql args. rd = intercept (del_intercept bd) sql args \<and>
         aligned (dialect_or_default (del_dialect bd))
           (DeleteBuilder_layout (dialect_or_default (del_dialect bd)) bd) sql args))"
  using insert_aligned [of bi ri] select_aligned [of bs rs] update_aligned [of bu ru]
    delete_aligned [of bd rd]
  by blast

theorem placeholders_aligned_witness:
  "InsertBuilder_Build
      ((Columns (Into Insert ''table'') [''c1'', ''c2''])
         \<lparr>ins_dialect := Some Postgres,
          ins_values := [[GoString ''a'', GoInt 1], [GoString ''b'', GoInt 2]]\<rparr>)
     = Inr (''INSERT INTO \"table\" (\"c1\", \"c2\") VALUES ($1, $2), ($3, $4)'',
            [GoString ''a'', GoInt 1, GoString ''b'', GoInt 2])
   \<and> aligned Postgres
        (InsertBuilder_layout Postgres
          ((Columns (Into Insert ''table'') [''c1'', ''c2''])
             \<lparr>ins_dialect := Some Postgres,
              ins_values := [[GoString ''a'', GoInt 1], [GoString ''b'', GoInt 2]]\<rparr>))
        ''INSERT INTO \"table\" (\"c1\", \"c2\") VALUES ($1, $2), ($3, $4)''
        [GoString ''a'', GoInt 1, GoString ''b'', GoInt 2]
   \<and> SelectBuilder_Build
      (SelectBuilder_SetDialect
         (SelectBuilder_Where (From (NewSelectBuilder ''c1'' []) ''table'' []) [Equal ''c3'' (GoInt 789)])
         (Some Postgres))
     = Inr (''SELECT \"c1\" FROM \"table\" WHERE \"c3\"=$1'', [GoInt 789])
   \<and> aligned Postgres
        (SelectBuilder_layout Postgres
          (SelectBuilder_SetDialect
             (SelectBuilder_Where (From (NewSelectBuilder ''c1'' []) ''table'' []) [Equal ''c3'' (GoInt 789)])
             (Some Postgres)))
        ''SELECT \"c1\" FROM \"table\" WHERE \"c3\"=$1'' [GoInt 789]
   \<and> UpdateBuilder_Build
      ((Table Update ''table'')
         \<lparr>upd_dialect := Some Postgres, upd_setters := [Add ''c4'' (GoInt 456)],
          upd_wheres := [Equal ''c3'' (GoInt 789)]\<rparr>)
     = Inr (''UPDATE \"table\" SET \"c4\"=\"c4\"+$1 WHERE \"c3\"=$2'', [GoInt 456, GoInt 789])
   \<and> aligned Postgres
        (UpdateBuilder_layout Postgres
          ((Table Update ''table'')
             \<lparr>upd_dialect := Some Postgres, upd_setters := [Add ''c4'' (GoInt 456)],
              upd_wheres := [Equal ''c3'' (GoInt 789)]\<rparr>))
        ''UPDATE \"table\" SET \"c4\"=\"c4\"+$1 WHERE \"c3\"=$2'' [GoInt 456, GoInt 789]
   \<and> DeleteBuilder_Build
      \<lparr>del_intercept = None, del_executor = None, del_dialect = Some Postgres,
       del_table = ''table'', del_wheres = [Equal ''c3'' (GoInt 789)]\<rparr>
     = Inr (''DELETE FROM \"table\" WHERE \"c3\"=$1'', [GoInt 789])
   \<and> aligned Postgres
        (DeleteBuilder_layout Postgres
          \<lparr>del_intercept = None, del_executor = None, del_dialect = Some Postgres,
           del_table = ''table'', del_wheres = [Equal ''c3'' (GoInt 789)]\<rparr>)
        ''DELETE FROM \"table\" WHERE \"c3\"=$1'' [GoInt 789]"
proof -
  let ?bi = "(Columns (Into Insert ''table'') [''c1'', ''c2''])
         \<lparr>ins_dialect := Some Postgres,
          ins_values := [[GoString ''a'', GoInt 1], [GoString ''b'', GoInt 2]]\<rparr>"
  let ?bs = "SelectBuilder_SetDialect
         (SelectBuilder_Where (From (NewSelectBuilder ''c1'' []) ''table'' []) [Equal ''c3'' (GoInt 789)])
         (Some Postgres)"
  let ?bu = "(Table Update ''table'')
         \<lparr>upd_dialect := Some Postgres, upd_setters := [Add ''c4'' (GoInt 456)],
          upd_wheres := [Equal ''c3'' (GoInt 789)]\<rparr>"
  let ?bd = "\<lparr>del_intercept = None, del_executor = None, del_dialect = Some Postgres,
       del_table = ''table'', del_wheres = [Equal ''c3'' (GoInt 789)]\<rparr>"
  let ?ri = "(''INSERT INTO \"table\" (\"c1\", \"c2\") VALUES ($1, $2), ($3, $4)'',
            [GoString ''a'', GoInt 1, GoString ''b'', GoInt 2])"
  let ?rs = "(''SELECT \"c1\" FROM \"table\" WHERE \"c3\"=$1'', [GoInt 789])"
  let ?ru = "(''UPDATE \"table\" SET \"c4\"=\"c4\"+$1 WHERE \"c3\"=$2'', [GoInt 456, GoInt 789])"
  let ?rd = "(''DELETE FROM \"table\" WHERE \"c3\"=$1'', [GoInt 789])"
  have i: "InsertBuilder_Build ?bi = Inr ?ri"
    by (simp add: Columns_def Into_def Insert_def NewInsertBuilder_def
        InsertBuilder_Build_def builtin_defs accumulator_defs addValues_def)
  have s: "SelectBuilder_Build ?bs = Inr ?rs"
    by (simp add: SelectBuilder_SetDialect_def SelectBuilder_Where_def From_def NewSelectBuilder_def
        SelectBuilder_Select_def getAlias_def Equal_def
        SelectBuilder_Build_def builtin_defs accumulator_defs)
  have u: "UpdateBuilder_Build ?bu = Inr ?ru"
    by (simp add: builtin_defs accumulator_defs UpdateBuilder_Build_def
      Table_def Update_def NewUpdateBuilder_def Equal_def write_where_def)
  have d: "DeleteBuilder_Build ?bd = Inr ?rd"
    by (simp add: builtin_defs accumulator_defs DeleteBuilder_Build_def Equal_def write_where_def)
  have fields: "ins_intercept ?bi = None" "dialect_or_default (ins_dialect ?bi) = Postgres"
    "sel_intercept ?bs = None" "dialect_or_default (sel_dialect ?bs) = Postgres"
    "upd_intercept ?bu = None" "dialect_or_default (upd_dialect ?bu) = Postgres"
    "del_intercept ?bd = None" "dialect_or_default (del_dialect ?bd) = Postgres"
    by (simp_all add: Columns_def Into_def Insert_def NewInsertBuilder_def
        SelectBuilder_SetDialect_def SelectBuilder_Where_def From_def NewSelectBuilder_def
        SelectBuilder_Select_def Table_def Update_def NewUpdateBuilder_def dialect_or_default_def)
  note all = placeholders_aligned [of ?bi ?ri ?bs ?rs ?bu ?ru ?bd ?rd]
  from all i have "\<exists>sql args. ?ri = intercept (ins_intercept ?bi) sql args \<and>
         aligned (dialect_or_default (ins_dialect ?bi))
           (InsertBuilder_layout (dialect_or_default (ins_dialect ?bi)) ?bi) sql args"
    by blast
  then have ci: "aligned Postgres (InsertBuilder_layout Postgres ?bi) (fst ?ri) (snd ?ri)"
    unfolding fields by (auto simp: intercept_def)
  from all s have "\<exists>sql args. ?rs = intercept (sel_intercept ?bs) sql args \<and>
         aligned (dialect_or_default (sel_dialect ?bs))
           (SelectBuilder_layout (dialect_or_default (sel_dialect ?bs)) ?bs) sql args"
    by blast
  then have cs: "aligned Postgres (SelectBuilder_layout Postgres ?bs) (fst ?rs) (snd ?rs)"
    unfolding fields by (auto simp: intercept_def)
  from all u have "\<exists>sql args. ?ru = intercept (upd_intercept ?bu) sql args \<and>
         aligned (dialect_or_default (upd_dialect ?bu))
           (UpdateBuilder_layout (dialect_or_default (upd_dialect ?bu)) ?bu) sql args"
    by blast
  then have cu: "aligned Postgres (UpdateBuilder_layout Postgres ?bu) (fst ?ru) (snd ?ru)"
    unfolding fields by (auto simp: intercept_def)
  from all d have "\<exists>sql args. ?rd = intercept (del_intercept ?bd) sql args \<and>
         aligned (dialect_or_default (del_dialect ?bd))
           (DeleteBuilder_layout (dialect_or_default (del_dialect ?bd)) ?bd) sql args"
    by blast
  then have cd: "aligned Postgres (DeleteBuilder_layout Postgres ?bd) (fst ?rd) (snd ?rd)"
    unfolding fields by (auto simp: intercept_def)
  from i s u d ci cs cu cd show ?thesis
    unfolding fst_conv snd_conv by (intro conjI)
qed

end
